theory Spec2Isabelle
  imports Main
begin

section \<open>Strings, truthiness and errors\<close>

text \<open>
  JavaScript strings are modelled as \<open>string\<close> (lists of 8-bit characters, i.e. code
  units below 256).  A thrown or rejected \<open>Error\<close> is the value \<open>Error m\<close> carrying
  its message; a function that may throw returns \<open>error + 'a\<close> with \<open>Inl\<close> the error.
\<close>

datatype error = Error string

fun err_message :: "error \<Rightarrow> string" where
  "err_message (Error m) = m"

text \<open>An optional string in a condition: \<open>undefined\<close> and the empty string are falsy.\<close>

fun truthy :: "string option \<Rightarrow> bool" where
  "truthy None = False"
| "truthy (Some s) = (s \<noteq> [])"

text \<open>\<open>a || b\<close> on an optional string with a string default.\<close>

fun or_else :: "string option \<Rightarrow> string \<Rightarrow> string" where
  "or_else None d = d"
| "or_else (Some s) d = (if s = [] then d else s)"

text \<open>White space as \<open>String.prototype.trim\<close> and the regex class \<open>\s\<close> see it
  (tab, LF, VT, FF, CR, space, NBSP), and the line terminators that \<open>.\<close> refuses.\<close>

definition js_space :: "char \<Rightarrow> bool" where
  "js_space c = (c \<in> {CHR 0x09, CHR 0x0A, CHR 0x0B, CHR 0x0C, CHR 0x0D, CHR 0x20, CHR 0xA0})"

definition line_terminator :: "char \<Rightarrow> bool" where
  "line_terminator c = (c = CHR 0x0A \<or> c = CHR 0x0D)"

definition trim :: "string \<Rightarrow> string" where
  "trim s = rev (dropWhile js_space (rev (dropWhile js_space s)))"

definition starts_with :: "string \<Rightarrow> string \<Rightarrow> bool" where
  "starts_with s p = (take (length p) s = p)"

text \<open>\<open>s.split(sep)\<close> for a separator that matches single characters.\<close>

fun split_on :: "(char \<Rightarrow> bool) \<Rightarrow> string \<Rightarrow> string list" where
  "split_on P [] = [[]]"
| "split_on P (c # cs) =
     (if P c then [] # split_on P cs
      else (case split_on P cs of [] \<Rightarrow> [[c]] | w # ws \<Rightarrow> (c # w) # ws))"

section \<open>Regular expressions of the repository facade\<close>

text \<open>
  Each pattern is embedded as the backtracking search the regex engine performs: start
  positions are tried from the left, lazy quantifiers try the shortest repetition first,
  greedy ones the longest.
\<close>

subsection \<open>\<^verbatim>\<open>/\/([^\/]+?)(\.git)?$/\<close> (getRepoName)\<close>

text \<open>\<^verbatim>\<open>(\.git)?$\<close>: the optional group is tried first, then skipped.\<close>

definition git_suffix_end :: "string \<Rightarrow> bool" where
  "git_suffix_end rest = (rest = ''.git'' \<or> rest = [])"

text \<open>\<^verbatim>\<open>[^\/]+?\<close> after the characters \<open>acc\<close> it has already taken (at least one):
  stop as soon as the rest of the pattern matches, else take one more character.\<close>

fun lazy_segment :: "string \<Rightarrow> string \<Rightarrow> string option" where
  "lazy_segment acc [] = (if git_suffix_end [] then Some acc else None)"
| "lazy_segment acc (c # cs) =
     (if git_suffix_end (c # cs) then Some acc
      else if c = CHR ''/'' then None
      else lazy_segment (acc @ [c]) cs)"

text \<open>One attempt at a start position; the result is capture group 1.\<close>

fun repo_match_at :: "string \<Rightarrow> string option" where
  "repo_match_at (a # c # cs) =
     (if a = CHR ''/'' \<and> c \<noteq> CHR ''/'' then lazy_segment [c] cs else None)"
| "repo_match_at _ = None"

fun repo_match :: "string \<Rightarrow> string option" where
  "repo_match [] = None"
| "repo_match (c # cs) =
     (case repo_match_at (c # cs) of Some g \<Rightarrow> Some g | None \<Rightarrow> repo_match cs)"

subsection \<open>\<^verbatim>\<open>/origin\s+(.*?)\s+\(fetch\)/\<close> (getRemote)\<close>

text \<open>\<^verbatim>\<open>\s+\(fetch\)\<close>: the greedy \<open>\s+\<close> must stop exactly where the parenthesis
  begins, since \<open>(\<close> is no white space.\<close>

definition spaces_fetch :: "string \<Rightarrow> bool" where
  "spaces_fetch s = (s \<noteq> [] \<and> js_space (hd s) \<and> starts_with (dropWhile js_space s) ''(fetch)'')"

text \<open>\<^verbatim>\<open>(.*?)\<close> followed by the rest of the pattern.\<close>

fun lazy_dots_fetch :: "string \<Rightarrow> string \<Rightarrow> string option" where
  "lazy_dots_fetch acc [] = None"
| "lazy_dots_fetch acc (c # cs) =
     (if spaces_fetch (c # cs) then Some acc
      else if line_terminator c then None
      else lazy_dots_fetch (acc @ [c]) cs)"

text \<open>The greedy \<open>\s+\<close> after \<open>origin\<close>: \<open>k\<close> white-space characters are given to it,
  and it gives one back on each failure, down to one.\<close>

fun origin_spaces :: "nat \<Rightarrow> string \<Rightarrow> string option" where
  "origin_spaces 0 s = None"
| "origin_spaces (Suc k) s =
     (case lazy_dots_fetch [] (drop (Suc k) s) of
        Some g \<Rightarrow> Some g
      | None \<Rightarrow> origin_spaces k s)"

definition remote_match_at :: "string \<Rightarrow> string option" where
  "remote_match_at s =
     (if starts_with s ''origin''
      then origin_spaces (length (takeWhile js_space (drop 6 s))) (drop 6 s)
      else None)"

fun remote_match :: "string \<Rightarrow> string option" where
  "remote_match [] = None"
| "remote_match (c # cs) =
     (case remote_match_at (c # cs) of Some g \<Rightarrow> Some g | None \<Rightarrow> remote_match cs)"

subsection \<open>\<^verbatim>\<open>/https:\/\/.*?@/\<close> and the two replacements (updateRemoteUrlWithToken)\<close>

text \<open>\<^verbatim>\<open>.*?@\<close>: the text that follows the match, when there is one.\<close>

fun lazy_dots_at :: "string \<Rightarrow> string option" where
  "lazy_dots_at [] = None"
| "lazy_dots_at (c # cs) =
     (if c = CHR ''@'' then Some cs
      else if line_terminator c then None
      else lazy_dots_at cs)"

definition cred_match_at :: "string \<Rightarrow> string option" where
  "cred_match_at s = (if starts_with s ''https://'' then lazy_dots_at (drop 8 s) else None)"

text \<open>\<^verbatim>\<open>s.replace(/https:\/\/.*?@/, "https://")\<close>: the first match is replaced.\<close>

fun strip_credential :: "string \<Rightarrow> string" where
  "strip_credential [] = []"
| "strip_credential (c # cs) =
     (case cred_match_at (c # cs) of
        Some rest \<Rightarrow> ''https://'' @ rest
      | None \<Rightarrow> c # strip_credential cs)"

text \<open>
  The replacement text of \<open>String.prototype.replace\<close> is a template even when the
  pattern is a string: \<open>$$\<close>, \<open>$&\<close>, \<open>$`\<close> and \<open>$'\<close> expand (to a dollar sign, the match,
  the text before it and the text after it); with no capture group every other use of
  \<open>$\<close> stays as it is.
\<close>

fun expand_template :: "string \<Rightarrow> string \<Rightarrow> string \<Rightarrow> string \<Rightarrow> string" where
  "expand_template [] m b a = []"
| "expand_template [c] m b a = [c]"
| "expand_template (c # d # r) m b a =
     (if c = CHR ''$'' \<and> d = CHR ''$'' then CHR ''$'' # expand_template r m b a
      else if c = CHR ''$'' \<and> d = CHR ''&'' then m @ expand_template r m b a
      else if c = CHR ''$'' \<and> d = CHR 0x60 then b @ expand_template r m b a
      else if c = CHR ''$'' \<and> d = CHR 0x27 then a @ expand_template r m b a
      else c # expand_template (d # r) m b a)"

text \<open>\<open>s.replace(pat, tmpl)\<close> for a non-empty string pattern; \<open>passed\<close> is what has been
  passed over.\<close>

fun replace_first :: "string \<Rightarrow> string \<Rightarrow> string \<Rightarrow> string \<Rightarrow> string" where
  "replace_first pat tmpl passed [] = passed"
| "replace_first pat tmpl passed (c # cs) =
     (if starts_with (c # cs) pat
      then passed @ expand_template tmpl pat passed (drop (length pat) (c # cs))
             @ drop (length pat) (c # cs)
      else replace_first pat tmpl (passed @ [c]) cs)"

text \<open>\<^verbatim>\<open>message.replace(/"/g, '\\"')\<close>: every double quote gets a backslash.\<close>

definition escape_quotes :: "string \<Rightarrow> string" where
  "escape_quotes m = concat (map (\<lambda>c. if c = CHR 0x22 then [CHR 0x5C, CHR 0x22] else [c]) m)"

section \<open>Command runner and repository facade (GitService)\<close>

text \<open>
  The child process is the outside world: a runner maps a command line, a working
  directory and the state of the world to what \<open>cp.exec\<close> calls back with, and the new
  state of the world.  \<open>Exit_err stderr msg\<close> is a failed run with its standard error
  and the message of the error object.
\<close>

datatype cmd_result = Exit_ok string | Exit_err string string

type_synonym 'w runner = "string \<Rightarrow> string \<Rightarrow> 'w \<Rightarrow> cmd_result \<times> 'w"

record profile =
  p_login :: string
  p_name :: "string option"
  p_email :: "string option"
  p_avatarUrl :: string
  p_followers :: "nat option"
  p_following :: "nat option"
  p_repositories :: "nat option"
  p_contributions :: "nat option"

record user =
  u_name :: string
  u_email :: string
  u_avatar :: string
  u_followers :: "nat option"
  u_following :: "nat option"
  u_repos :: "nat option"
  u_contributions :: "nat option"

record stats =
  branch :: string
  remote :: string
  status :: string
  repoName :: string
  repoPath :: string
  stats_user :: user

datatype notification =
    ShowInformation string
  | ShowError string
  | ConsoleError string
  | PostUpdateStats stats
  | PostShowSetup
  | PostShowDashboard
  | PostShowDeviceCode string string

text \<open>
  The state that the handlers thread: the world behind the runner, the command lines
  handed to the child process so far (in order), what was shown, posted or logged so
  far, and the provider's cached user.
\<close>

record 'w sys =
  world :: 'w
  issued :: "string list"
  emitted :: "notification list"
  currentUser :: "user option"

text \<open>\<open>GitService.exec\<close>: the guard throws before any process is started.\<close>

definition exec :: "'w runner \<Rightarrow> string option \<Rightarrow> string \<Rightarrow> 'w sys \<Rightarrow> (error + string) \<times> 'w sys" where
  "exec run root command s =
     (case root of
        None \<Rightarrow> (Inl (Error ''No workspace folder open''), s)
      | Some cwd \<Rightarrow>
          if cwd = [] then (Inl (Error ''No workspace folder open''), s)
          else (case run command cwd (world s) of
                  (r, w') \<Rightarrow>
                    ((case r of
                        Exit_err stderr msg \<Rightarrow> Inl (Error (if stderr = [] then msg else stderr))
                      | Exit_ok stdout \<Rightarrow> Inr (trim stdout)),
                     s\<lparr>world := w', issued := issued s @ [command]\<rparr>)))"

definition folder_name :: "string \<Rightarrow> string" where
  "folder_name root =
     or_else (Some (last (split_on (\<lambda>c. c = CHR 0x5C \<or> c = CHR ''/'') root))) ''Unknown''"

definition getRepoName :: "'w runner \<Rightarrow> string option \<Rightarrow> 'w sys \<Rightarrow> string \<times> 'w sys" where
  "getRepoName run root s =
     (case root of
        None \<Rightarrow> (''No Repo'', s)
      | Some cwd \<Rightarrow>
          if cwd = [] then (''No Repo'', s)
          else (case exec run root ''git remote get-url origin'' s of
                  (Inr remoteUrl, s') \<Rightarrow>
                    (case repo_match remoteUrl of
                       Some g \<Rightarrow> (g, s')
                     | None \<Rightarrow> (folder_name cwd, s'))
                | (Inl e, s') \<Rightarrow> (folder_name cwd, s')))"

definition getRepoPath :: "string option \<Rightarrow> string" where
  "getRepoPath root = or_else root ''No workspace open''"

definition getStatus :: "'w runner \<Rightarrow> string option \<Rightarrow> 'w sys \<Rightarrow> string \<times> 'w sys" where
  "getStatus run root s =
     (if \<not> truthy root then (''No Repo'', s)
      else (case exec run root ''git status --short'' s of
              (Inr st, s') \<Rightarrow> (if st \<noteq> [] then st else ''Clean'', s')
            | (Inl e, s') \<Rightarrow> (''Error getting status'', s')))"

definition getCurrentBranch :: "'w runner \<Rightarrow> string option \<Rightarrow> 'w sys \<Rightarrow> string \<times> 'w sys" where
  "getCurrentBranch run root s =
     (if \<not> truthy root then (''No Repo'', s)
      else (case exec run root ''git rev-parse --abbrev-ref HEAD'' s of
              (Inr b, s') \<Rightarrow> (b, s')
            | (Inl e, s') \<Rightarrow> (''Unknown'', s')))"

definition getRemote :: "'w runner \<Rightarrow> string option \<Rightarrow> 'w sys \<Rightarrow> string \<times> 'w sys" where
  "getRemote run root s =
     (if \<not> truthy root then (''No Repo'', s)
      else (case exec run root ''git remote -v'' s of
              (Inr remotes, s') \<Rightarrow>
                (case remote_match remotes of Some g \<Rightarrow> (g, s') | None \<Rightarrow> (''No origin'', s'))
            | (Inl e, s') \<Rightarrow> (''Unknown'', s')))"

definition commit :: "'w runner \<Rightarrow> string option \<Rightarrow> string \<Rightarrow> 'w sys \<Rightarrow> (error + string) \<times> 'w sys" where
  "commit run root msg s =
     exec run root (''git commit -m '' @ [CHR 0x22] @ escape_quotes msg @ [CHR 0x22]) s"

definition push :: "'w runner \<Rightarrow> string option \<Rightarrow> 'w sys \<Rightarrow> (error + string) \<times> 'w sys" where
  "push run root s = exec run root ''git push'' s"

definition pull :: "'w runner \<Rightarrow> string option \<Rightarrow> 'w sys \<Rightarrow> (error + string) \<times> 'w sys" where
  "pull run root s = exec run root ''git pull'' s"

definition fetch :: "'w runner \<Rightarrow> string option \<Rightarrow> 'w sys \<Rightarrow> (error + string) \<times> 'w sys" where
  "fetch run root s = exec run root ''git fetch'' s"

definition stash :: "'w runner \<Rightarrow> string option \<Rightarrow> 'w sys \<Rightarrow> (error + string) \<times> 'w sys" where
  "stash run root s = exec run root ''git stash'' s"

definition addAll :: "'w runner \<Rightarrow> string option \<Rightarrow> 'w sys \<Rightarrow> (error + string) \<times> 'w sys" where
  "addAll run root s = exec run root ''git add .'' s"

definition updateRemoteUrlWithToken ::
  "'w runner \<Rightarrow> string option \<Rightarrow> string \<Rightarrow> 'w sys \<Rightarrow> string \<times> 'w sys" where
  "updateRemoteUrlWithToken run root token s =
     (case exec run root ''git remote get-url origin'' s of
        (Inl e, s') \<Rightarrow> (''Failed to update remote URL'', s')
      | (Inr remoteUrl, s') \<Rightarrow>
          if starts_with remoteUrl ''https://''
          then (let cleanUrl = strip_credential remoteUrl;
                    newUrl = replace_first ''https://'' (''https://'' @ token @ ''@'') [] cleanUrl
                in (case exec run root (''git remote set-url origin '' @ newUrl) s' of
                      (Inl e, s'') \<Rightarrow> (''Failed to update remote URL'', s'')
                    | (Inr out, s'') \<Rightarrow> (''Remote URL updated with token'', s'')))
          else (''Remote URL is not HTTPS, skipping token update'', s'))"

definition setRemote_add ::
  "'w runner \<Rightarrow> string option \<Rightarrow> string \<Rightarrow> 'w sys \<Rightarrow> (error + string) \<times> 'w sys" where
  \<comment> \<open>the inner \<open>catch\<close> and what follows it\<close>
  "setRemote_add run root u s =
     (case exec run root (''git remote add origin '' @ u) s of
        (Inl e, s') \<Rightarrow> (Inl (Error (''Failed to set remote: '' @ err_message e)), s')
      | (Inr out, s') \<Rightarrow> (Inr ''Remote URL updated'', s'))"

definition setRemote ::
  "'w runner \<Rightarrow> string option \<Rightarrow> string \<Rightarrow> 'w sys \<Rightarrow> (error + string) \<times> 'w sys" where
  "setRemote run root u s =
     (case exec run root ''git remote get-url origin'' s of
        (Inl e, s1) \<Rightarrow> setRemote_add run root u s1
      | (Inr out, s1) \<Rightarrow>
          (case exec run root (''git remote set-url origin '' @ u) s1 of
             (Inl e, s2) \<Rightarrow> setRemote_add run root u s2
           | (Inr out2, s2) \<Rightarrow> (Inr ''Remote URL updated'', s2)))"

definition getBranches :: "'w runner \<Rightarrow> string option \<Rightarrow> 'w sys \<Rightarrow> string list \<times> 'w sys" where
  "getBranches run root s =
     (case exec run root (''git branch --format='' @ [CHR 0x27] @ ''%(refname:short)'' @ [CHR 0x27]) s of
        (Inr out, s') \<Rightarrow>
          (filter (\<lambda>b. length b > 0) (map trim (split_on (\<lambda>c. c = CHR 0x0A) out)), s')
      | (Inl e, s') \<Rightarrow> ([], s'))"

definition createBranch ::
  "'w runner \<Rightarrow> string option \<Rightarrow> string \<Rightarrow> 'w sys \<Rightarrow> (error + string) \<times> 'w sys" where
  "createBranch run root branchName s = exec run root (''git checkout -b '' @ branchName) s"

definition deleteBranch ::
  "'w runner \<Rightarrow> string option \<Rightarrow> string \<Rightarrow> 'w sys \<Rightarrow> (error + string) \<times> 'w sys" where
  "deleteBranch run root branchName s = exec run root (''git branch -D '' @ branchName) s"

definition switchBranch ::
  "'w runner \<Rightarrow> string option \<Rightarrow> string \<Rightarrow> 'w sys \<Rightarrow> (error + string) \<times> 'w sys" where
  "switchBranch run root branchName s = exec run root (''git checkout '' @ branchName) s"

definition mergeBranch ::
  "'w runner \<Rightarrow> string option \<Rightarrow> string \<Rightarrow> 'w sys \<Rightarrow> (error + string) \<times> 'w sys" where
  "mergeBranch run root branchName s = exec run root (''git merge '' @ branchName) s"

section \<open>Git action dispatcher (SidebarProvider)\<close>

text \<open>
  What the provider reads from its surroundings: the command runner, the workspace
  folder that \<open>new GitService()\<close> resolves, whether a webview is attached
  (\<open>this._view\<close>), the secret store's answer for the GitHub token (it may reject), the
  profile resolver and the authentication session (either may throw).
\<close>

record 'w env =
  run :: "'w runner"
  workspaceRoot :: "string option"
  view_attached :: bool
  secret_pat :: "error + string option"
  userProfile :: "string \<Rightarrow> error + profile"
  session :: "error + string option"

text \<open>The payload of a webview message: each field may be missing.\<close>

record payload =
  message :: "string option"
  url :: "string option"
  name :: "string option"

text \<open>\<open>payload && payload.f\<close>\<close>

fun field :: "(payload \<Rightarrow> string option) \<Rightarrow> payload option \<Rightarrow> string option" where
  "field f None = None"
| "field f (Some p) = (if truthy (f p) then f p else None)"

text \<open>A branch of the \<open>switch\<close> that needs a payload field: the facade method is called
  with the field, or the error is thrown.\<close>

fun with_field ::
  "string option \<Rightarrow> string \<Rightarrow> (string \<Rightarrow> 'w sys \<Rightarrow> (error + string) \<times> 'w sys)
     \<Rightarrow> 'w sys \<Rightarrow> (error + string) \<times> 'w sys" where
  "with_field None required call s = (Inl (Error required), s)"
| "with_field (Some v) required call s = call v s"

definition fast_push :: "'w runner \<Rightarrow> string option \<Rightarrow> 'w sys \<Rightarrow> (error + string) \<times> 'w sys" where
  "fast_push rn root s =
     (case addAll rn root s of
        (Inl e, s1) \<Rightarrow> (Inl e, s1)
      | (Inr out1, s1) \<Rightarrow>
          (case commit rn root ''Fast Push: Auto-commit'' s1 of
             (Inl e, s2) \<Rightarrow> (Inl e, s2)
           | (Inr out2, s2) \<Rightarrow> push rn root s2))"

text \<open>The \<open>switch\<close> of \<open>handleGitAction\<close>, inside its \<open>try\<close>: the value of \<open>result\<close>, or
  the error thrown.  The \<open>switch\<close> has no \<open>default\<close>.\<close>

definition gitAction ::
  "'w env \<Rightarrow> string \<Rightarrow> payload option \<Rightarrow> 'w sys \<Rightarrow> (error + string) \<times> 'w sys" where
  "gitAction e action pl s =
     (if action = ''status'' then
        (case getStatus (run e) (workspaceRoot e) s of (r, s') \<Rightarrow> (Inr r, s'))
      else if action = ''push'' then push (run e) (workspaceRoot e) s
      else if action = ''pull'' then pull (run e) (workspaceRoot e) s
      else if action = ''fetch'' then fetch (run e) (workspaceRoot e) s
      else if action = ''commit'' then
        with_field (field message pl) ''Commit message required''
          (commit (run e) (workspaceRoot e)) s
      else if action = ''fast-push'' then fast_push (run e) (workspaceRoot e) s
      else if action = ''stash'' then stash (run e) (workspaceRoot e) s
      else if action = ''set-remote'' then
        with_field (field url pl) ''Remote URL required''
          (setRemote (run e) (workspaceRoot e)) s
      else if action = ''create-branch'' then
        with_field (field name pl) ''Branch name required''
          (createBranch (run e) (workspaceRoot e)) s
      else if action = ''delete-branch'' then
        with_field (field name pl) ''Branch name required''
          (deleteBranch (run e) (workspaceRoot e)) s
      else if action = ''switch-branch'' then
        with_field (field name pl) ''Branch name required''
          (switchBranch (run e) (workspaceRoot e)) s
      else if action = ''merge-branch'' then
        with_field (field name pl) ''Branch name required''
          (mergeBranch (run e) (workspaceRoot e)) s
      else (Inr [], s))"

definition guest :: user where
  "guest = \<lparr>u_name = ''Guest'', u_email = ''Not logged in'', u_avatar = [],
            u_followers = None, u_following = None, u_repos = None, u_contributions = None\<rparr>"

fun count_or_zero :: "nat option \<Rightarrow> nat option" where
  "count_or_zero None = Some 0"
| "count_or_zero (Some n) = Some n"

definition user_of_profile :: "profile \<Rightarrow> user" where
  "user_of_profile p =
     \<lparr>u_name = or_else (p_name p) (p_login p),
      u_email = or_else (p_email p) ''No public email'',
      u_avatar = p_avatarUrl p,
      u_followers = count_or_zero (p_followers p),
      u_following = count_or_zero (p_following p),
      u_repos = count_or_zero (p_repositories p),
      u_contributions = count_or_zero (p_contributions p)\<rparr>"

text \<open>The session fallback of \<open>refreshStats\<close>, taken while no user is cached.\<close>

definition session_fallback :: "'w env \<Rightarrow> user \<Rightarrow> user" where
  "session_fallback e u =
     (case session e of
        Inr (Some label) \<Rightarrow> u\<lparr>u_name := label, u_email := ''Logged in via GitHub''\<rparr>
      | _ \<Rightarrow> u)"

text \<open>The user block of \<open>refreshStats\<close>.  Only the secret store's rejection leaves it
  with an error; a failing profile fetch is logged and the guest user kept.\<close>

definition resolve_user :: "'w env \<Rightarrow> 'w sys \<Rightarrow> (error + user) \<times> 'w sys" where
  "resolve_user e s =
     (case currentUser s of
        Some u \<Rightarrow> (Inr u, s)
      | None \<Rightarrow>
          (case secret_pat e of
             Inl err \<Rightarrow> (Inl err, s)
           | Inr pat \<Rightarrow>
               (case (if truthy pat then pat else None) of
                  None \<Rightarrow> (Inr (session_fallback e guest), s)
                | Some tok \<Rightarrow>
                    (case userProfile e tok of
                       Inr p \<Rightarrow> (Inr (user_of_profile p), s\<lparr>currentUser := Some (user_of_profile p)\<rparr>)
                     | Inl err \<Rightarrow>
                         (Inr (session_fallback e guest),
                          s\<lparr>emitted := emitted s @ [ConsoleError ''Failed to fetch profile with stored PAT'']\<rparr>)))))"

definition post_stats ::
  "'w env \<Rightarrow> string \<Rightarrow> string \<Rightarrow> string \<Rightarrow> string \<Rightarrow> 'w sys \<Rightarrow> 'w sys" where
  \<comment> \<open>the user block and the \<open>update-stats\<close> message, with the outer \<open>catch\<close>\<close>
  "post_stats e b r st rn s =
     (case resolve_user e s of
        (Inl err, s') \<Rightarrow> s'\<lparr>emitted := emitted s' @ [ConsoleError ''Failed to refresh stats'']\<rparr>
      | (Inr u, s') \<Rightarrow>
          if view_attached e
          then s'\<lparr>emitted := emitted s' @
                 [PostUpdateStats \<lparr>branch = b, remote = r, status = st, repoName = rn,
                                   repoPath = getRepoPath (workspaceRoot e), stats_user = u\<rparr>]\<rparr>
          else s')"

text \<open>\<open>refreshStats\<close>: the four queries in the order of the source, then the user block
  and the message.  Callers do not await it; the model runs it to its end.\<close>

definition refreshStats :: "'w env \<Rightarrow> 'w sys \<Rightarrow> 'w sys" where
  "refreshStats e s =
     (let (b, s1) = getCurrentBranch (run e) (workspaceRoot e) s;
          (r, s2) = getRemote (run e) (workspaceRoot e) s1;
          (st, s3) = getStatus (run e) (workspaceRoot e) s2;
          (rn, s4) = getRepoName (run e) (workspaceRoot e) s3
      in post_stats e b r st rn s4)"

text \<open>\<open>handleGitAction\<close>: the success message and the refresh are the end of the \<open>try\<close>
  block; the \<open>catch\<close> block shows the error.\<close>

definition handleGitAction :: "'w env \<Rightarrow> string \<Rightarrow> payload option \<Rightarrow> 'w sys \<Rightarrow> 'w sys" where
  "handleGitAction e action pl s =
     (case gitAction e action pl s of
        (Inr result, s') \<Rightarrow>
          refreshStats e
            (s'\<lparr>emitted := emitted s' @ [ShowInformation (''Git '' @ action @ '' success: '' @ result)]\<rparr>)
      | (Inl err, s') \<Rightarrow>
          s'\<lparr>emitted := emitted s' @ [ShowError (''Git '' @ action @ '' failed: '' @ err_message err)]\<rparr>)"

text \<open>The payload field that the specification mandates for an action, if any.\<close>

definition required_field :: "string \<Rightarrow> (payload \<Rightarrow> string option) option" where
  "required_field action =
     (if action = ''commit'' then Some message
      else if action = ''set-remote'' then Some url
      else if action \<in> {''create-branch'', ''delete-branch'', ''switch-branch'', ''merge-branch''}
      then Some name
      else None)"

definition validation_message :: "string \<Rightarrow> string" where
  "validation_message action =
     (if action = ''commit'' then ''Commit message required''
      else if action = ''set-remote'' then ''Remote URL required''
      else ''Branch name required'')"

text \<open>The closed enumeration of actions.\<close>

definition git_actions :: "string list" where
  "git_actions = [''status'', ''push'', ''pull'', ''fetch'', ''commit'', ''fast-push'', ''stash'',
     ''set-remote'', ''create-branch'', ''delete-branch'', ''switch-branch'', ''merge-branch'']"

text \<open>The command lines that a stats refresh hands to the runner.\<close>

definition refresh_queries :: "string list" where
  "refresh_queries = [''git rev-parse --abbrev-ref HEAD'', ''git remote -v'',
     ''git status --short'', ''git remote get-url origin'']"

definition fast_push_commands :: "string list" where
  "fast_push_commands = [''git add .'', ''git commit -m '' @ [CHR 0x22] @ ''Fast Push: Auto-commit'' @ [CHR 0x22],
     ''git push'']"

fun failed :: "cmd_result \<Rightarrow> bool" where
  "failed (Exit_ok out) = False"
| "failed (Exit_err stderr msg) = True"

text \<open>A runner that answers from a script, whatever the command; used to run the
  model on concrete inputs.\<close>

fun scripted :: "cmd_result list runner" where
  "scripted command cwd [] = (Exit_err [] ''script exhausted'', [])"
| "scripted command cwd (r # rs) = (r, rs)"

definition test_env :: "string option \<Rightarrow> cmd_result list env" where
  "test_env root = \<lparr>run = scripted, workspaceRoot = root, view_attached = True,
     secret_pat = Inr None, userProfile = (\<lambda>t. Inl (Error ''offline'')), session = Inr None\<rparr>"

definition init_sys :: "'w \<Rightarrow> 'w sys" where
  "init_sys w = \<lparr>world = w, issued = [], emitted = [], currentUser = None\<rparr>"

section \<open>Device-flow authenticator (AuthService.pollForToken)\<close>

text \<open>
  The parsed body of a token-endpoint response, with the fields that the loop reads;
  any of them may be missing.  Intervals are integers (seconds).
\<close>

record token_response =
  access_token :: "string option"
  error_code :: "string option"
  error_description :: "string option"
  new_interval :: "int option"

text \<open>What \<open>postRequest\<close> settles with: a rejection (transport error, unparsable body),
  the JSON value \<open>null\<close>, or an object (any other JSON value reads as an object without
  fields).\<close>

datatype http_reply = Http_rejects error | Json_null | Json_object token_response

text \<open>What one round of \<open>poll\<close> does with the reply.  A delay is what is handed to
  \<open>setTimeout\<close>, in milliseconds; \<open>None\<close> is \<open>NaN\<close> (a \<open>slow_down\<close> without interval).\<close>

datatype poll_step = Resolve string | Reschedule "int option" | Reject error

definition classify :: "int \<Rightarrow> http_reply \<Rightarrow> poll_step" where
  "classify interval reply =
     (case reply of
        Http_rejects err \<Rightarrow> Reject err
      | Json_null \<Rightarrow>
          Reject (Error (''Cannot read properties of null (reading '' @ [CHR 0x27] @ ''access_token''
                         @ [CHR 0x27] @ '')''))
      | Json_object r \<Rightarrow>
          (case (if truthy (access_token r) then access_token r else None) of
             Some t \<Rightarrow> Resolve t
           | None \<Rightarrow>
               if error_code r = Some ''authorization_pending''
               then Reschedule (Some ((interval + 1) * 1000))
               else if error_code r = Some ''slow_down''
               then Reschedule (map_option (\<lambda>n. (n + 1) * 1000) (new_interval r))
               else if error_code r = Some ''expired_token'' then Reject (Error ''Token expired'')
               else if error_code r = Some ''access_denied'' then Reject (Error ''Access denied'')
               else Reject (Error (or_else (error_description r) ''Unknown error''))))"

text \<open>
  The loop, driven by the replies of the token endpoint in the order they arrive.  It
  returns the state of the promise and what the loop did: each token request and each
  timer it armed.  When the replies run out the last request is still outstanding and
  the promise pending.
\<close>

datatype poll_outcome = Resolved string | Rejected error | Pending

datatype flow_event = TokenRequest | Timer "int option"

fun poll :: "int \<Rightarrow> http_reply list \<Rightarrow> poll_outcome \<times> flow_event list" where
  "poll interval [] = (Pending, [TokenRequest])"
| "poll interval (r # rs) =
     (case classify interval r of
        Resolve t \<Rightarrow> (Resolved t, [TokenRequest])
      | Reject err \<Rightarrow> (Rejected err, [TokenRequest])
      | Reschedule d \<Rightarrow>
          (case poll interval rs of (out, tr) \<Rightarrow> (out, TokenRequest # Timer d # tr)))"

definition pollForToken :: "string \<Rightarrow> int \<Rightarrow> http_reply list \<Rightarrow> poll_outcome \<times> flow_event list" where
  "pollForToken device_code interval replies = poll interval replies"

text \<open>The timers of a trace, and the replies that make the loop go round again.\<close>

fun timers :: "flow_event list \<Rightarrow> int option list" where
  "timers [] = []"
| "timers (TokenRequest # tr) = timers tr"
| "timers (Timer d # tr) = d # timers tr"

definition reschedules :: "int \<Rightarrow> http_reply \<Rightarrow> bool" where
  "reschedules interval r = (case classify interval r of Reschedule d \<Rightarrow> True | _ \<Rightarrow> False)"

fun delay_of :: "poll_step \<Rightarrow> int option" where
  "delay_of (Reschedule d) = d"
| "delay_of _ = None"

definition pending_reply :: http_reply where
  "pending_reply = Json_object \<lparr>access_token = None, error_code = Some ''authorization_pending'',
     error_description = None, new_interval = None\<rparr>"

definition slow_down_reply :: "int \<Rightarrow> http_reply" where
  "slow_down_reply n = Json_object \<lparr>access_token = None, error_code = Some ''slow_down'',
     error_description = None, new_interval = Some n\<rparr>"

definition token_reply :: "string \<Rightarrow> http_reply" where
  "token_reply t = Json_object \<lparr>access_token = Some t, error_code = None,
     error_description = None, new_interval = None\<rparr>"

section \<open>Device-flow logins as the event loop runs them (handleDeviceFlowLogin)\<close>

text \<open>
  Each call of \<open>handleDeviceFlowLogin\<close> that gets its device code starts a polling loop
  of its own.  A loop either waits for the reply to its token request, or for its timer,
  or is over.  The provider keeps no handle on a loop, and nothing in the source clears
  a timer or marks a loop as cancelled; so the events are: a login, the arrival of the
  reply that a loop waits for, and the firing of a loop's timer.
\<close>

datatype phase = AwaitingReply | TimerArmed "int option" | Finished

record flow =
  f_device_code :: string
  f_interval :: int
  f_phase :: phase

record device_code_response =
  dc_device_code :: string
  dc_user_code :: string
  dc_verification_uri :: string
  dc_interval :: int

datatype login_event =
    Login "error + device_code_response"
  | Reply nat http_reply
  | Fire nat

datatype effect =
    StoreSecret string string
  | Notify notification

record logins =
  flows :: "flow list"
  token_requests :: "string list"
  effects :: "effect list"

text \<open>The continuation of \<open>await pollForToken\<close> (its first two statements; updating the
  remote URL, the profile fetch and \<open>checkAuth\<close> follow them) and the \<open>catch\<close>.\<close>

definition on_success :: "string \<Rightarrow> effect list" where
  "on_success token =
     [StoreSecret ''gitHelper.githubPat'' token,
      Notify (ShowInformation ''Successfully logged in with GitHub!'')]"

definition on_failure :: "bool \<Rightarrow> error \<Rightarrow> effect list" where
  "on_failure view err =
     Notify (ShowError (''Device Flow Login failed: '' @ err_message err))
     # (if view then [Notify PostShowSetup] else [])"

fun armed :: "phase \<Rightarrow> bool" where
  "armed (TimerArmed d) = True"
| "armed _ = False"

definition set_phase :: "nat \<Rightarrow> phase \<Rightarrow> logins \<Rightarrow> logins" where
  "set_phase i ph s = s\<lparr>flows := (flows s)[i := (flows s ! i)\<lparr>f_phase := ph\<rparr>]\<rparr>"

fun login_step :: "bool \<Rightarrow> login_event \<Rightarrow> logins \<Rightarrow> logins" where
  "login_step view (Login (Inl err)) s = s\<lparr>effects := effects s @ on_failure view err\<rparr>"
| "login_step view (Login (Inr dc)) s =
     s\<lparr>flows := flows s @ [\<lparr>f_device_code = dc_device_code dc, f_interval = dc_interval dc,
                              f_phase = AwaitingReply\<rparr>],
       token_requests := token_requests s @ [dc_device_code dc],
       effects := effects s @
         (if view then [Notify (PostShowDeviceCode (dc_user_code dc) (dc_verification_uri dc))]
          else [])\<rparr>"
| "login_step view (Reply i reply) s =
     (if i < length (flows s) \<and> f_phase (flows s ! i) = AwaitingReply
      then (case classify (f_interval (flows s ! i)) reply of
              Resolve t \<Rightarrow> (set_phase i Finished s)\<lparr>effects := effects s @ on_success t\<rparr>
            | Reject err \<Rightarrow> (set_phase i Finished s)\<lparr>effects := effects s @ on_failure view err\<rparr>
            | Reschedule d \<Rightarrow> set_phase i (TimerArmed d) s)
      else s)"
| "login_step view (Fire i) s =
     (if i < length (flows s) \<and> armed (f_phase (flows s ! i))
      then (set_phase i AwaitingReply s)
             \<lparr>token_requests := token_requests s @ [f_device_code (flows s ! i)]\<rparr>
      else s)"

fun login_run :: "bool \<Rightarrow> login_event list \<Rightarrow> logins \<Rightarrow> logins" where
  "login_run view [] s = s"
| "login_run view (ev # evs) s = login_run view evs (login_step view ev s)"

definition no_logins :: logins where
  "no_logins = \<lparr>flows = [], token_requests = [], effects = []\<rparr>"

section \<open>Descriptions that the embedded code is compared with, and sample inputs\<close>

text \<open>The name in a URL segment: a \<open>.git\<close> suffix is stripped when a name is left.\<close>

definition strip_git_suffix :: "string \<Rightarrow> string" where
  "strip_git_suffix seg =
     (if length seg > 4 \<and> drop (length seg - 4) seg = ''.git'' then take (length seg - 4) seg else seg)"

text \<open>The text after the last separator (the whole text when there is none).\<close>

definition last_segment :: "(char \<Rightarrow> bool) \<Rightarrow> string \<Rightarrow> string" where
  "last_segment sep s = rev (takeWhile (\<lambda>c. \<not> sep c) (rev s))"

text \<open>The name that a remote URL yields: its last segment after a slash, if not empty.\<close>

definition url_name :: "string \<Rightarrow> string option" where
  "url_name u =
     (if CHR ''/'' \<in> set u \<and> last_segment (\<lambda>c. c = CHR ''/'') u \<noteq> []
      then Some (strip_git_suffix (last_segment (\<lambda>c. c = CHR ''/'') u))
      else None)"

text \<open>What follows \<open>https://\<close> once an embedded credential (the text up to the first \<open>@\<close>)
  is stripped.\<close>

definition without_credential :: "string \<Rightarrow> string" where
  "without_credential rest =
     (if CHR ''@'' \<in> set rest then tl (dropWhile (\<lambda>c. c \<noteq> CHR ''@'') rest) else rest)"

text \<open>The wait that a rescheduling reply asks for, given the interval that the flow was
  started with: the reply's own interval plus one second after \<open>slow_down\<close>, the
  flow's interval plus one second otherwise.\<close>

definition wait_after :: "int \<Rightarrow> http_reply \<Rightarrow> int option" where
  "wait_after interval reply =
     (case reply of
        Json_object r \<Rightarrow>
          if error_code r = Some ''slow_down'' then map_option (\<lambda>n. (n + 1) * 1000) (new_interval r)
          else Some ((interval + 1) * 1000)
      | _ \<Rightarrow> None)"

text \<open>Two device-code responses, for running the login events on concrete inputs.\<close>

definition dc_A :: device_code_response where
  "dc_A = \<lparr>dc_device_code = ''A'', dc_user_code = ''AAAA-1111'',
            dc_verification_uri = ''https://github.com/login/device'', dc_interval = 5\<rparr>"

definition dc_B :: device_code_response where
  "dc_B = \<lparr>dc_device_code = ''B'', dc_user_code = ''BBBB-2222'',
            dc_verification_uri = ''https://github.com/login/device'', dc_interval = 5\<rparr>"

section \<open>Facts about the command runner and the stats refresh\<close>

lemmas run_defs = handleGitAction_def gitAction_def fast_push_def addAll_def commit_def push_def
  pull_def fetch_def stash_def setRemote_def setRemote_add_def createBranch_def deleteBranch_def
  switchBranch_def mergeBranch_def getStatus_def getCurrentBranch_def getRemote_def
  getRepoName_def getRepoPath_def getBranches_def updateRemoteUrlWithToken_def
  refreshStats_def post_stats_def resolve_user_def session_fallback_def guest_def
  exec_def trim_def js_space_def line_terminator_def starts_with_def escape_quotes_def
  folder_name_def git_suffix_end_def spaces_fetch_def remote_match_at_def cred_match_at_def
  test_env_def init_sys_def

lemma truthy_cases: "truthy root \<longleftrightarrow> (\<exists>cwd. root = Some cwd \<and> cwd \<noteq> [])"
  by (cases root) auto

lemma exec_no_root: "\<not> truthy root \<Longrightarrow> exec rn root c s = (Inl (Error ''No workspace folder open''), s)"
  by (cases root) (auto simp: exec_def)

lemma exec_root:
  "root = Some cwd \<Longrightarrow> cwd \<noteq> [] \<Longrightarrow> rn c cwd (world s) = (r, w') \<Longrightarrow>
   exec rn root c s =
     ((case r of Exit_err stderr msg \<Rightarrow> Inl (Error (if stderr = [] then msg else stderr))
              | Exit_ok stdout \<Rightarrow> Inr (trim stdout)),
      s\<lparr>world := w', issued := issued s @ [c]\<rparr>)"
  by (simp add: exec_def)

lemma exec_issued: "truthy root \<Longrightarrow> issued (snd (exec rn root c s)) = issued s @ [c]"
  by (cases root) (auto simp: exec_def split: prod.splits)

lemma exec_emitted: "emitted (snd (exec rn root c s)) = emitted s"
  by (cases root) (auto simp: exec_def split: prod.splits)

lemma exec_currentUser: "currentUser (snd (exec rn root c s)) = currentUser s"
  by (cases root) (auto simp: exec_def split: prod.splits)

lemma exec_ok_iff:
  "root = Some cwd \<Longrightarrow> cwd \<noteq> [] \<Longrightarrow> rn c cwd (world s) = (r, w') \<Longrightarrow>
   (\<exists>out. fst (exec rn root c s) = Inr out) \<longleftrightarrow> \<not> failed r"
  by (cases r) (simp_all add: exec_def)

lemma getCurrentBranch_snd:
  "snd (getCurrentBranch rn root s) =
     (if truthy root then snd (exec rn root ''git rev-parse --abbrev-ref HEAD'' s) else s)"
  by (auto simp: getCurrentBranch_def split: prod.splits sum.splits)

lemma getRemote_snd:
  "snd (getRemote rn root s) = (if truthy root then snd (exec rn root ''git remote -v'' s) else s)"
  by (auto simp: getRemote_def split: prod.splits sum.splits option.splits)

lemma getStatus_snd:
  "snd (getStatus rn root s) = (if truthy root then snd (exec rn root ''git status --short'' s) else s)"
  by (auto simp: getStatus_def split: prod.splits sum.splits)

lemma getRepoName_snd:
  "snd (getRepoName rn root s) =
     (if truthy root then snd (exec rn root ''git remote get-url origin'' s) else s)"
  by (cases root) (auto simp: getRepoName_def split: prod.splits sum.splits option.splits)

lemma resolve_user_issued: "issued (snd (resolve_user e s)) = issued s"
  by (auto simp: resolve_user_def split: option.splits sum.splits)

lemma resolve_user_world: "world (snd (resolve_user e s)) = world s"
  by (auto simp: resolve_user_def split: option.splits sum.splits)

lemma post_stats_issued: "issued (post_stats e b r st rn s) = issued s"
  using resolve_user_issued [of e s]
  by (auto simp: post_stats_def split: prod.splits sum.splits)

lemma post_stats_posts:
  assumes "view_attached e" and "currentUser s \<noteq> None \<or> (\<exists>pat. secret_pat e = Inr pat)"
  shows "\<exists>u. emitted (post_stats e b r st rn s) \<noteq> [] \<and>
           last (emitted (post_stats e b r st rn s)) =
             PostUpdateStats \<lparr>branch = b, remote = r, status = st, repoName = rn,
                              repoPath = getRepoPath (workspaceRoot e), stats_user = u\<rparr>"
  using assms
  by (auto simp: post_stats_def resolve_user_def split: prod.splits sum.splits option.splits)

lemma refreshStats_issued:
  "issued (refreshStats e s) =
     issued s @ (if truthy (workspaceRoot e) then refresh_queries else [])"
proof -
  obtain b s1 where g1: "getCurrentBranch (run e) (workspaceRoot e) s = (b, s1)" by force
  obtain r s2 where g2: "getRemote (run e) (workspaceRoot e) s1 = (r, s2)" by force
  obtain st s3 where g3: "getStatus (run e) (workspaceRoot e) s2 = (st, s3)" by force
  obtain rn s4 where g4: "getRepoName (run e) (workspaceRoot e) s3 = (rn, s4)" by force
  have i1: "issued s1 = issued s @ (if truthy (workspaceRoot e) then [''git rev-parse --abbrev-ref HEAD''] else [])"
    using getCurrentBranch_snd [of "run e" "workspaceRoot e" s] g1 by (simp add: exec_issued)
  have i2: "issued s2 = issued s1 @ (if truthy (workspaceRoot e) then [''git remote -v''] else [])"
    using getRemote_snd [of "run e" "workspaceRoot e" s1] g2 by (simp add: exec_issued)
  have i3: "issued s3 = issued s2 @ (if truthy (workspaceRoot e) then [''git status --short''] else [])"
    using getStatus_snd [of "run e" "workspaceRoot e" s2] g3 by (simp add: exec_issued)
  have i4: "issued s4 = issued s3 @ (if truthy (workspaceRoot e) then [''git remote get-url origin''] else [])"
    using getRepoName_snd [of "run e" "workspaceRoot e" s3] g4 by (simp add: exec_issued)
  have "refreshStats e s = post_stats e b r st rn s4"
    by (simp add: refreshStats_def g1 g2 g3 g4)
  then show ?thesis
    by (simp add: post_stats_issued i1 i2 i3 i4 refresh_queries_def)
qed

lemma getters_currentUser:
  "currentUser (snd (getCurrentBranch rn root s)) = currentUser s"
  "currentUser (snd (getRemote rn root s)) = currentUser s"
  "currentUser (snd (getStatus rn root s)) = currentUser s"
  "currentUser (snd (getRepoName rn root s)) = currentUser s"
  by (simp_all add: getCurrentBranch_snd getRemote_snd getStatus_snd getRepoName_snd exec_currentUser)

lemma refreshStats_posts:
  assumes "view_attached e" and "currentUser s \<noteq> None \<or> (\<exists>pat. secret_pat e = Inr pat)"
  shows "\<exists>st. emitted (refreshStats e s) \<noteq> [] \<and>
           last (emitted (refreshStats e s)) = PostUpdateStats st \<and>
           repoPath st = getRepoPath (workspaceRoot e)"
proof -
  obtain b s1 where g1: "getCurrentBranch (run e) (workspaceRoot e) s = (b, s1)" by force
  obtain r s2 where g2: "getRemote (run e) (workspaceRoot e) s1 = (r, s2)" by force
  obtain st s3 where g3: "getStatus (run e) (workspaceRoot e) s2 = (st, s3)" by force
  obtain rn s4 where g4: "getRepoName (run e) (workspaceRoot e) s3 = (rn, s4)" by force
  have "currentUser s4 = currentUser s"
    using getters_currentUser(1) [of "run e" "workspaceRoot e" s]
      getters_currentUser(2) [of "run e" "workspaceRoot e" s1]
      getters_currentUser(3) [of "run e" "workspaceRoot e" s2]
      getters_currentUser(4) [of "run e" "workspaceRoot e" s3]
    by (simp add: g1 g2 g3 g4)
  with assms have c: "currentUser s4 \<noteq> None \<or> (\<exists>pat. secret_pat e = Inr pat)" by simp
  have eq: "refreshStats e s = post_stats e b r st rn s4"
    by (simp add: refreshStats_def g1 g2 g3 g4)
  from post_stats_posts [OF assms(1) c, of b r st rn] show ?thesis
    unfolding eq by force
qed

section \<open>The repository-name pattern finds the last URL segment\<close>

lemma lazy_segment_slash: "CHR ''/'' \<in> set rest \<Longrightarrow> lazy_segment acc rest = None"
proof (induction rest arbitrary: acc)
  case Nil then show ?case by simp
next
  case (Cons c cs)
  then have "\<not> git_suffix_end (c # cs)" by (auto simp: git_suffix_end_def)
  with Cons show ?case by auto
qed

lemma lazy_segment_seg:
  "CHR ''/'' \<notin> set rest \<Longrightarrow>
   lazy_segment acc rest =
     Some (acc @ (if 4 \<le> length rest \<and> drop (length rest - 4) rest = ''.git''
                  then take (length rest - 4) rest else rest))"
proof (induction rest arbitrary: acc)
  case Nil
  then show ?case by (simp add: git_suffix_end_def)
next
  case (Cons c cs)
  show ?case
  proof (cases "c # cs = ''.git''")
    case True
    then show ?thesis by (simp add: git_suffix_end_def)
  next
    case False
    then have ng: "\<not> git_suffix_end (c # cs)" by (simp add: git_suffix_end_def)
    from Cons.prems have c: "c \<noteq> CHR ''/''" and cs: "CHR ''/'' \<notin> set cs" by auto
    have step: "lazy_segment acc (c # cs) = lazy_segment (acc @ [c]) cs"
      using ng c by simp
    consider "4 \<le> length cs" | "length cs = 3" | "length cs < 3" by linarith
    then show ?thesis
    proof cases
      case 1
      then have "length cs - 3 = Suc (length cs - 4)" by simp
      then show ?thesis using 1 step Cons.IH [OF cs, of "acc @ [c]"]
        by (simp add: Suc_diff_le)
    next
      case 2
      then show ?thesis using step Cons.IH [OF cs, of "acc @ [c]"] False by simp
    next
      case 3
      then show ?thesis using step Cons.IH [OF cs, of "acc @ [c]"] by simp
    qed
  qed
qed

lemma strip_git_suffix_Cons:
  "strip_git_suffix (c # cs) =
     c # (if 4 \<le> length cs \<and> drop (length cs - 4) cs = ''.git'' then take (length cs - 4) cs else cs)"
proof (cases "4 \<le> length cs")
  case True
  then have "length cs - 3 = Suc (length cs - 4)" by simp
  with True show ?thesis by (simp add: strip_git_suffix_def Suc_diff_le)
next
  case False
  then show ?thesis by (simp add: strip_git_suffix_def)
qed

lemma repo_match_at_segment:
  "seg \<noteq> [] \<Longrightarrow> CHR ''/'' \<notin> set seg \<Longrightarrow> repo_match_at (CHR ''/'' # seg) = Some (strip_git_suffix seg)"
  by (cases seg) (auto simp: lazy_segment_seg strip_git_suffix_Cons)

lemma repo_match_at_before: "CHR ''/'' \<in> set rest \<Longrightarrow> repo_match_at (a # rest) = None"
  by (cases rest) (auto simp: lazy_segment_slash)

lemma repo_match_segment:
  "seg \<noteq> [] \<Longrightarrow> CHR ''/'' \<notin> set seg \<Longrightarrow> repo_match (base @ CHR ''/'' # seg) = Some (strip_git_suffix seg)"
  by (induction base) (simp_all add: repo_match_at_segment repo_match_at_before)

lemma repo_match_trailing_slash: "repo_match (base @ [CHR ''/'']) = None"
  by (induction base) (simp_all add: repo_match_at_before)

lemma repo_match_no_slash: "CHR ''/'' \<notin> set u \<Longrightarrow> repo_match u = None"
proof (induction u)
  case Nil then show ?case by simp
next
  case (Cons a u)
  then have "repo_match_at (a # u) = None" by (cases u) auto
  with Cons show ?case by simp
qed

lemma split_last_segment:
  "(\<exists>c \<in> set s. sep c) \<Longrightarrow>
   \<exists>base c. sep c \<and> s = base @ c # last_segment sep s \<and> (\<forall>x \<in> set (last_segment sep s). \<not> sep x)"
proof -
  assume a: "\<exists>c \<in> set s. sep c"
  let ?t = "takeWhile (\<lambda>c. \<not> sep c) (rev s)" and ?d = "dropWhile (\<lambda>c. \<not> sep c) (rev s)"
  from a have "?d \<noteq> []" by auto
  then obtain c d where d: "?d = c # d" by (cases ?d) auto
  then have "sep c" using hd_dropWhile [of "\<lambda>c. \<not> sep c" "rev s"] by auto
  have "rev s = ?t @ c # d" using d takeWhile_dropWhile_id [of "\<lambda>c. \<not> sep c" "rev s"] by simp
  then have "s = rev d @ c # rev ?t" by (metis rev_append rev_rev_ident rev.simps(2) append_Cons append_Nil append_assoc)
  moreover have "\<forall>x \<in> set (rev ?t). \<not> sep x" by (auto dest: set_takeWhileD)
  ultimately show ?thesis using \<open>sep c\<close> unfolding last_segment_def by blast
qed

lemma last_segment_no_sep: "(\<forall>c \<in> set s. \<not> sep c) \<Longrightarrow> last_segment sep s = s"
  by (simp add: last_segment_def takeWhile_eq_all_conv [THEN iffD2])

lemma repo_match_eq_url_name: "repo_match u = url_name u"
proof (cases "CHR ''/'' \<in> set u")
  case False
  then show ?thesis by (simp add: repo_match_no_slash url_name_def)
next
  case True
  then have "\<exists>c \<in> set u. c = CHR ''/''" by simp
  from split_last_segment [of u "\<lambda>c. c = CHR ''/''", OF this]
  obtain base where u: "u = base @ CHR ''/'' # last_segment (\<lambda>c. c = CHR ''/'') u"
    and ns: "CHR ''/'' \<notin> set (last_segment (\<lambda>c. c = CHR ''/'') u)" by auto
  let ?seg = "last_segment (\<lambda>c. c = CHR ''/'') u"
  show ?thesis
  proof (cases "?seg = []")
    case True
    with u have "u = base @ [CHR ''/'']" by simp
    then have "repo_match u = None" using repo_match_trailing_slash [of base] by simp
    with True \<open>CHR ''/'' \<in> set u\<close> show ?thesis by (simp add: url_name_def)
  next
    case False
    from repo_match_segment [OF False ns, of base] u
    have "repo_match u = Some (strip_git_suffix ?seg)" by simp
    with False True show ?thesis by (simp add: url_name_def)
  qed
qed

lemma split_on_nonempty: "split_on P s \<noteq> []"
  by (induction s) (auto split: list.splits)

lemma split_on_no_sep: "(\<forall>c \<in> set s. \<not> P c) \<Longrightarrow> split_on P s = [s]"
  by (induction s) auto

lemma split_on_after_sep:
  "P c \<Longrightarrow> \<exists>w ws. split_on P (base @ c # seg) = w # ws \<and> ws \<noteq> [] \<and> last ws = last (split_on P seg)"
proof (induction base)
  case Nil
  then show ?case by (simp add: split_on_nonempty)
next
  case (Cons b base)
  then obtain w ws where "split_on P (base @ c # seg) = w # ws" "ws \<noteq> []"
    "last ws = last (split_on P seg)" by blast
  then show ?case by simp
qed

lemma last_split_on: "last (split_on P s) = last_segment P s"
proof (cases "\<exists>c \<in> set s. P c")
  case False
  then have "\<forall>c \<in> set s. \<not> P c" by blast
  then show ?thesis by (simp add: split_on_no_sep last_segment_no_sep)
next
  case True
  from split_last_segment [OF True]
  obtain base c where c: "P c" and s: "s = base @ c # last_segment P s"
    and ns: "\<forall>x \<in> set (last_segment P s). \<not> P x" by blast
  from split_on_after_sep [of P c base "last_segment P s"] c
  obtain w ws where "split_on P (base @ c # last_segment P s) = w # ws" "ws \<noteq> []"
    "last ws = last (split_on P (last_segment P s))" by blast
  then have "last (split_on P (base @ c # last_segment P s)) = last_segment P s"
    using ns by (simp add: split_on_no_sep)
  with s show ?thesis by simp
qed

lemma folder_name_eq:
  "folder_name root =
     (if last_segment (\<lambda>c. c = CHR 0x5C \<or> c = CHR ''/'') root = [] then ''Unknown''
      else last_segment (\<lambda>c. c = CHR 0x5C \<or> c = CHR ''/'') root)"
  by (simp add: folder_name_def last_split_on)

lemma last_segment_append:
  "sep c \<Longrightarrow> \<forall>x \<in> set seg. \<not> sep x \<Longrightarrow> last_segment sep (dir @ c # seg) = seg"
proof -
  assume c: "sep c" and seg: "\<forall>x \<in> set seg. \<not> sep x"
  have "takeWhile (\<lambda>c. \<not> sep c) (rev seg @ c # rev dir)
          = rev seg @ takeWhile (\<lambda>c. \<not> sep c) (c # rev dir)"
    by (rule takeWhile_append2) (use seg in auto)
  then show ?thesis using c by (simp add: last_segment_def)
qed

section \<open>The credential pattern and the token template\<close>

lemma lazy_dots_at_eq:
  "\<forall>c \<in> set rest. \<not> line_terminator c \<Longrightarrow>
   lazy_dots_at rest =
     (if CHR ''@'' \<in> set rest then Some (tl (dropWhile (\<lambda>c. c \<noteq> CHR ''@'') rest)) else None)"
  by (induction rest) auto

lemma lazy_dots_at_none: "CHR ''@'' \<notin> set rest \<Longrightarrow> lazy_dots_at rest = None"
  by (induction rest) auto

lemma strip_credential_no_at: "CHR ''@'' \<notin> set u \<Longrightarrow> strip_credential u = u"
proof (induction u)
  case Nil then show ?case by simp
next
  case (Cons c u)
  then have "CHR ''@'' \<notin> set (drop 8 (c # u))" by (auto dest: in_set_dropD)
  then have "cred_match_at (c # u) = None" by (simp add: cred_match_at_def lazy_dots_at_none)
  with Cons show ?case by simp
qed

lemma strip_credential_https:
  assumes "\<forall>c \<in> set rest. \<not> line_terminator c"
  shows "strip_credential (''https://'' @ rest) = ''https://'' @ without_credential rest"
proof (cases "CHR ''@'' \<in> set rest")
  case True
  have "cred_match_at (''https://'' @ rest) = Some (tl (dropWhile (\<lambda>c. c \<noteq> CHR ''@'') rest))"
    using True by (simp add: cred_match_at_def starts_with_def lazy_dots_at_eq [OF assms])
  then show ?thesis using True by (simp add: without_credential_def)
next
  case False
  then have "CHR ''@'' \<notin> set (''https://'' @ rest)" by simp
  from strip_credential_no_at [OF this] False show ?thesis by (simp add: without_credential_def)
qed

lemma expand_template_plain: "CHR ''$'' \<notin> set t \<Longrightarrow> expand_template t m b a = t"
  by (induction t m b a rule: expand_template.induct) auto

lemma replace_first_https:
  "CHR ''$'' \<notin> set token \<Longrightarrow>
   replace_first ''https://'' (''https://'' @ token @ ''@'') [] (''https://'' @ x)
     = ''https://'' @ token @ ''@'' @ x"
  using expand_template_plain [of "''https://'' @ token @ ''@''" "''https://''" "[]" x]
  by (simp add: starts_with_def)

section \<open>Facts about the polling loop and the login events\<close>

lemma poll_Resolve: "classify interval r = Resolve t \<Longrightarrow> poll interval (r # rs) = (Resolved t, [TokenRequest])"
  by simp

lemma poll_Reject: "classify interval r = Reject err \<Longrightarrow> poll interval (r # rs) = (Rejected err, [TokenRequest])"
  by simp

lemma poll_Reschedule:
  "classify interval r = Reschedule d \<Longrightarrow>
   poll interval (r # rs) = (fst (poll interval rs), TokenRequest # Timer d # snd (poll interval rs))"
  by (simp split: prod.splits)

lemma classify_token:
  "access_token r = Some t \<Longrightarrow> t \<noteq> [] \<Longrightarrow> classify interval (Json_object r) = Resolve t"
  by (simp add: classify_def)

lemma classify_pending:
  "\<not> truthy (access_token r) \<Longrightarrow> error_code r = Some ''authorization_pending'' \<Longrightarrow>
   classify interval (Json_object r) = Reschedule (Some ((interval + 1) * 1000))"
  by (simp add: classify_def)

lemma classify_slow_down:
  "\<not> truthy (access_token r) \<Longrightarrow> error_code r = Some ''slow_down'' \<Longrightarrow>
   classify interval (Json_object r) = Reschedule (map_option (\<lambda>n. (n + 1) * 1000) (new_interval r))"
  by (simp add: classify_def)

lemma classify_expired:
  "\<not> truthy (access_token r) \<Longrightarrow> error_code r = Some ''expired_token'' \<Longrightarrow>
   classify interval (Json_object r) = Reject (Error ''Token expired'')"
  by (simp add: classify_def)

lemma classify_denied:
  "\<not> truthy (access_token r) \<Longrightarrow> error_code r = Some ''access_denied'' \<Longrightarrow>
   classify interval (Json_object r) = Reject (Error ''Access denied'')"
  by (simp add: classify_def)

lemma classify_other:
  "\<not> truthy (access_token r) \<Longrightarrow>
   error_code r \<notin> {Some ''authorization_pending'', Some ''slow_down'', Some ''expired_token'',
                     Some ''access_denied''} \<Longrightarrow>
   classify interval (Json_object r) = Reject (Error (or_else (error_description r) ''Unknown error''))"
  by (simp add: classify_def)

lemma classify_reschedule_wait:
  "classify interval reply = Reschedule d \<Longrightarrow> d = wait_after interval reply"
  by (auto simp: classify_def wait_after_def split: http_reply.splits option.splits if_splits)

lemma timers_poll:
  "timers (snd (poll interval replies))
     = map (wait_after interval) (takeWhile (reschedules interval) replies)"
proof (induction replies)
  case Nil
  then show ?case by simp
next
  case (Cons r rs)
  show ?case
  proof (cases "classify interval r")
    case (Reschedule d)
    have "timers (snd (poll interval (r # rs))) = d # timers (snd (poll interval rs))"
      by (simp only: poll_Reschedule [OF Reschedule] snd_conv timers.simps)
    moreover have "reschedules interval r"
      by (simp add: reschedules_def Reschedule)
    ultimately show ?thesis
      using Cons classify_reschedule_wait [OF Reschedule] by (simp del: poll.simps)
  qed (simp_all add: reschedules_def)
qed

lemma set_phase_flows:
  "flows (set_phase i ph s) = (flows s)[i := (flows s ! i)\<lparr>f_phase := ph\<rparr>]"
  "token_requests (set_phase i ph s) = token_requests s"
  "effects (set_phase i ph s) = effects s"
  by (simp_all add: set_phase_def)

lemma login_keeps_flows:
  "i < length (flows s) \<Longrightarrow> flows (login_step view (Login r) s) ! i = flows s ! i"
  by (cases r) (simp_all add: nth_append)

lemma login_length: "length (flows s) \<le> length (flows (login_step view (Login r) s))"
  by (cases r) simp_all

section \<open>Mutating actions in the dispatcher without a workspace folder\<close>

lemma gitAction_no_workspace:
  assumes nr: "\<not> truthy (workspaceRoot e)"
    and act: "action \<in> set git_actions" and ns: "action \<noteq> ''status''"
    and fld: "\<forall>f. required_field action = Some f \<longrightarrow> field f pl \<noteq> None"
  shows "gitAction e action pl s =
           (Inl (Error ((if action = ''set-remote'' then ''Failed to set remote: '' else [])
                        @ ''No workspace folder open'')), s)"
proof -
  note x = exec_no_root [OF nr]
  from act have "action = ''status'' \<or> action = ''push'' \<or> action = ''pull'' \<or> action = ''fetch''
      \<or> action = ''commit'' \<or> action = ''fast-push'' \<or> action = ''stash'' \<or> action = ''set-remote''
      \<or> action = ''create-branch'' \<or> action = ''delete-branch'' \<or> action = ''switch-branch''
      \<or> action = ''merge-branch''"
    unfolding git_actions_def by (simp only: set_simps insert_iff empty_iff disj_assoc simp_thms)
  then show ?thesis
    using ns fld
    by (elim disjE)
       (auto simp: gitAction_def push_def pull_def fetch_def commit_def fast_push_def addAll_def
          stash_def setRemote_def setRemote_add_def createBranch_def deleteBranch_def
          switchBranch_def mergeBranch_def required_field_def x)
qed

lemma dispatch_no_workspace:
  assumes "\<not> truthy (workspaceRoot e)"
    and "action \<in> set git_actions" and "action \<noteq> ''status''"
    and "\<forall>f. required_field action = Some f \<longrightarrow> field f pl \<noteq> None"
  shows "handleGitAction e action pl s =
           s\<lparr>emitted := emitted s @
              [ShowError (''Git '' @ action @ '' failed: ''
                 @ (if action = ''set-remote'' then ''Failed to set remote: '' else [])
                 @ ''No workspace folder open'')]\<rparr>"
  unfolding handleGitAction_def gitAction_no_workspace [OF assms] by simp

section \<open>Claims about the git action dispatcher\<close>

text \<open>
  C1.  For each action that mandates a payload field (\<open>commit\<close>: message, \<open>set-remote\<close>:
  url, the four branch actions: name), dispatching the action without the field (no
  payload, no such field, or an empty field) shows the validation failure of that action,
  and nothing else happens: no command line reaches the runner, the world is untouched.
\<close>

theorem missing_field_fails_validation:
  assumes "required_field action = Some f" and "field f pl = None"
  shows "handleGitAction e action pl s =
           s\<lparr>emitted := emitted s @ [ShowError (''Git '' @ action @ '' failed: '' @ validation_message action)]\<rparr>
         \<and> issued (handleGitAction e action pl s) = issued s
         \<and> world (handleGitAction e action pl s) = world s"
  using assms
  by (auto simp: required_field_def handleGitAction_def gitAction_def validation_message_def split: if_splits)

theorem missing_field_fails_validation_witness:
  "handleGitAction (test_env (Some ''/w/proj'')) ''commit'' None (init_sys [Exit_ok ''a''])
     = \<lparr>world = [Exit_ok ''a''], issued = [],
        emitted = [ShowError ''Git commit failed: Commit message required''], currentUser = None\<rparr>
   \<and> handleGitAction (test_env (Some ''/w/proj'')) ''merge-branch''
        (Some \<lparr>message = Some ''m'', url = None, name = Some []\<rparr>) (init_sys [Exit_ok ''a''])
     = \<lparr>world = [Exit_ok ''a''], issued = [],
        emitted = [ShowError ''Git merge-branch failed: Branch name required''], currentUser = None\<rparr>"
  using missing_field_fails_validation [of "''commit''" message None
          "test_env (Some ''/w/proj'')" "init_sys [Exit_ok ''a'']"]
        missing_field_fails_validation [of "''merge-branch''" name
          "Some \<lparr>message = Some ''m'', url = None, name = Some []\<rparr>"
          "test_env (Some ''/w/proj'')" "init_sys [Exit_ok ''a'']"]
  by (simp add: required_field_def validation_message_def init_sys_def)

text \<open>
  C2.  The \<open>fast-push\<close> action runs \<open>git add .\<close>, then the commit with the fixed message
  \<open>Fast Push: Auto-commit\<close>, then \<open>git push\<close>, in this order, each in the world the
  previous one left; it stops at the first command that fails, so the commands it runs
  are the first one, the first two or all three, and it succeeds exactly when none of
  the three fails.  Without a workspace folder the first step fails before any command
  is run.
\<close>

theorem fast_push_sequence:
  assumes "gitAction e ''fast-push'' pl s = (res, s')"
  shows "(\<not> truthy (workspaceRoot e) \<longrightarrow> res = Inl (Error ''No workspace folder open'') \<and> s' = s)
    \<and> (\<forall>cwd r1 w1 r2 w2 r3 w3.
          workspaceRoot e = Some cwd \<and> cwd \<noteq> []
          \<and> run e (fast_push_commands ! 0) cwd (world s) = (r1, w1)
          \<and> run e (fast_push_commands ! 1) cwd w1 = (r2, w2)
          \<and> run e (fast_push_commands ! 2) cwd w2 = (r3, w3)
          \<longrightarrow> issued s' = issued s @
                 (if failed r1 then take 1 fast_push_commands
                  else if failed r2 then take 2 fast_push_commands
                  else fast_push_commands)
              \<and> ((\<exists>out. res = Inr out) \<longleftrightarrow> \<not> failed r1 \<and> \<not> failed r2 \<and> \<not> failed r3))"
proof (rule conjI)
  show "\<not> truthy (workspaceRoot e) \<longrightarrow> res = Inl (Error ''No workspace folder open'') \<and> s' = s"
  proof (rule impI)
    assume "\<not> truthy (workspaceRoot e)"
    then have "fast_push (run e) (workspaceRoot e) s = (Inl (Error ''No workspace folder open''), s)"
      by (simp add: fast_push_def addAll_def exec_no_root)
    with assms show "res = Inl (Error ''No workspace folder open'') \<and> s' = s"
      by (simp add: gitAction_def)
  qed
next
  show "\<forall>cwd r1 w1 r2 w2 r3 w3.
          workspaceRoot e = Some cwd \<and> cwd \<noteq> []
          \<and> run e (fast_push_commands ! 0) cwd (world s) = (r1, w1)
          \<and> run e (fast_push_commands ! 1) cwd w1 = (r2, w2)
          \<and> run e (fast_push_commands ! 2) cwd w2 = (r3, w3)
          \<longrightarrow> issued s' = issued s @
                 (if failed r1 then take 1 fast_push_commands
                  else if failed r2 then take 2 fast_push_commands
                  else fast_push_commands)
              \<and> ((\<exists>out. res = Inr out) \<longleftrightarrow> \<not> failed r1 \<and> \<not> failed r2 \<and> \<not> failed r3)"
  proof (intro allI impI)
    fix cwd r1 w1 r2 w2 r3 w3
    assume h: "workspaceRoot e = Some cwd \<and> cwd \<noteq> []
          \<and> run e (fast_push_commands ! 0) cwd (world s) = (r1, w1)
          \<and> run e (fast_push_commands ! 1) cwd w1 = (r2, w2)
          \<and> run e (fast_push_commands ! 2) cwd w2 = (r3, w3)"
    have fp: "fast_push (run e) (workspaceRoot e) s = (res, s')"
      using assms by (simp add: gitAction_def)
    from h have c1: "run e ''git add .'' cwd (world s) = (r1, w1)"
      and c2: "run e (''git commit -m '' @ [CHR 0x22] @ escape_quotes ''Fast Push: Auto-commit'' @ [CHR 0x22]) cwd w1 = (r2, w2)"
      and c3: "run e ''git push'' cwd w2 = (r3, w3)"
      by (simp_all add: fast_push_commands_def escape_quotes_def)
    from h have root: "workspaceRoot e = Some cwd" "cwd \<noteq> []" by simp_all
    show "issued s' = issued s @
                 (if failed r1 then take 1 fast_push_commands
                  else if failed r2 then take 2 fast_push_commands
                  else fast_push_commands)
              \<and> ((\<exists>out. res = Inr out) \<longleftrightarrow> \<not> failed r1 \<and> \<not> failed r2 \<and> \<not> failed r3)"
      using fp root c1 c2 c3
      by (cases r1; cases r2; cases r3)
         (auto simp: fast_push_def addAll_def commit_def push_def exec_def fast_push_commands_def
            escape_quotes_def)
  qed
qed

theorem fast_push_sequence_witness:
  "gitAction (test_env (Some ''/w/proj'')) ''fast-push'' None
      (init_sys [Exit_ok ''a'', Exit_err ''nothing to commit'' ''Command failed'', Exit_ok ''pushed''])
    = (Inl (Error ''nothing to commit''),
       \<lparr>world = [Exit_ok ''pushed''], issued = take 2 fast_push_commands, emitted = [], currentUser = None\<rparr>)
   \<and> ''git push'' \<notin> set (take 2 fast_push_commands)"
proof -
  let ?e = "test_env (Some ''/w/proj'') :: cmd_result list env"
  let ?s = "init_sys [Exit_ok ''a'', Exit_err ''nothing to commit'' ''Command failed'', Exit_ok ''pushed'']"
  obtain res s' where g: "gitAction ?e ''fast-push'' None ?s = (res, s')" by force
  have r: "workspaceRoot ?e = Some ''/w/proj'' \<and> ''/w/proj'' \<noteq> []
      \<and> run ?e (fast_push_commands ! 0) ''/w/proj'' (world ?s) 
          = (Exit_ok ''a'', [Exit_err ''nothing to commit'' ''Command failed'', Exit_ok ''pushed''])
      \<and> run ?e (fast_push_commands ! 1) ''/w/proj'' [Exit_err ''nothing to commit'' ''Command failed'', Exit_ok ''pushed'']
          = (Exit_err ''nothing to commit'' ''Command failed'', [Exit_ok ''pushed''])
      \<and> run ?e (fast_push_commands ! 2) ''/w/proj'' [Exit_ok ''pushed''] = (Exit_ok ''pushed'', [])"
    by (simp add: test_env_def init_sys_def)
  from fast_push_sequence [OF g, THEN conjunct2, rule_format, OF r]
  have "issued s' = issued ?s @ take 2 fast_push_commands" "\<not> (\<exists>out. res = Inr out)"
    by simp_all
  moreover have "gitAction ?e ''fast-push'' None ?s = (Inl (Error ''nothing to commit''),
       \<lparr>world = [Exit_ok ''pushed''], issued = take 2 fast_push_commands, emitted = [], currentUser = None\<rparr>)"
    by (simp add: run_defs fast_push_commands_def)
  ultimately show ?thesis by (simp add: fast_push_commands_def)
qed

text \<open>
  C3, as the claim states it, fails: a failed action is followed by no stats refresh.
  Here \<open>git push\<close> fails; the handler shows the error, issues no query and posts no
  \<open>update-stats\<close> message.
\<close>

theorem failed_action_no_refresh_counterexample:
  "handleGitAction (test_env (Some ''/w/proj'')) ''push'' None
      (init_sys [Exit_err ''rejected'' ''Command failed'', Exit_ok ''main''])
     = \<lparr>world = [Exit_ok ''main''], issued = [''git push''],
        emitted = [ShowError ''Git push failed: rejected''], currentUser = None\<rparr>"
  by (simp add: run_defs)

text \<open>
  C3, amended.  After an action that succeeds the dispatcher shows the success and runs
  the stats refresh: the four queries are issued after the action's commands when a
  workspace folder is open, and the \<open>update-stats\<close> message is the last thing emitted
  when a webview is attached and a user is cached or the secret store answers.  After an
  action that fails the dispatcher shows the error and does nothing else.
\<close>

theorem refresh_after_success_only:
  assumes "gitAction e action pl s = (res, s')"
  shows "(\<forall>out. res = Inr out \<longrightarrow>
            handleGitAction e action pl s =
              refreshStats e
                (s'\<lparr>emitted := emitted s' @ [ShowInformation (''Git '' @ action @ '' success: '' @ out)]\<rparr>)
          \<and> issued (handleGitAction e action pl s) =
              issued s' @ (if truthy (workspaceRoot e) then refresh_queries else [])
          \<and> (view_attached e \<and> (currentUser s' \<noteq> None \<or> (\<exists>pat. secret_pat e = Inr pat)) \<longrightarrow>
               (\<exists>st. last (emitted (handleGitAction e action pl s)) = PostUpdateStats st
                     \<and> repoPath st = getRepoPath (workspaceRoot e))))
       \<and> (\<forall>err. res = Inl err \<longrightarrow>
            handleGitAction e action pl s =
              s'\<lparr>emitted := emitted s' @ [ShowError (''Git '' @ action @ '' failed: '' @ err_message err)]\<rparr>)"
proof (rule conjI)
  show "\<forall>out. res = Inr out \<longrightarrow>
            handleGitAction e action pl s =
              refreshStats e
                (s'\<lparr>emitted := emitted s' @ [ShowInformation (''Git '' @ action @ '' success: '' @ out)]\<rparr>)
          \<and> issued (handleGitAction e action pl s) =
              issued s' @ (if truthy (workspaceRoot e) then refresh_queries else [])
          \<and> (view_attached e \<and> (currentUser s' \<noteq> None \<or> (\<exists>pat. secret_pat e = Inr pat)) \<longrightarrow>
               (\<exists>st. last (emitted (handleGitAction e action pl s)) = PostUpdateStats st
                     \<and> repoPath st = getRepoPath (workspaceRoot e)))"
  proof (intro allI impI)
    fix out assume ok: "res = Inr out"
    let ?s1 = "s'\<lparr>emitted := emitted s' @ [ShowInformation (''Git '' @ action @ '' success: '' @ out)]\<rparr>"
    have eq: "handleGitAction e action pl s = refreshStats e ?s1"
      using assms ok by (simp add: handleGitAction_def)
    have iss: "issued (refreshStats e ?s1) =
                 issued s' @ (if truthy (workspaceRoot e) then refresh_queries else [])"
      using refreshStats_issued [of e ?s1] by simp
    have post: "view_attached e \<and> (currentUser s' \<noteq> None \<or> (\<exists>pat. secret_pat e = Inr pat)) \<longrightarrow>
               (\<exists>st. last (emitted (refreshStats e ?s1)) = PostUpdateStats st
                     \<and> repoPath st = getRepoPath (workspaceRoot e))"
    proof (rule impI)
      assume a: "view_attached e \<and> (currentUser s' \<noteq> None \<or> (\<exists>pat. secret_pat e = Inr pat))"
      then have "currentUser ?s1 \<noteq> None \<or> (\<exists>pat. secret_pat e = Inr pat)" by simp
      from refreshStats_posts [OF conjunct1 [OF a] this]
      show "\<exists>st. last (emitted (refreshStats e ?s1)) = PostUpdateStats st
                     \<and> repoPath st = getRepoPath (workspaceRoot e)" by blast
    qed
    show "handleGitAction e action pl s = refreshStats e ?s1
          \<and> issued (handleGitAction e action pl s) =
              issued s' @ (if truthy (workspaceRoot e) then refresh_queries else [])
          \<and> (view_attached e \<and> (currentUser s' \<noteq> None \<or> (\<exists>pat. secret_pat e = Inr pat)) \<longrightarrow>
               (\<exists>st. last (emitted (handleGitAction e action pl s)) = PostUpdateStats st
                     \<and> repoPath st = getRepoPath (workspaceRoot e)))"
      unfolding eq using iss post by blast
  qed
next
  show "\<forall>err. res = Inl err \<longrightarrow>
            handleGitAction e action pl s =
              s'\<lparr>emitted := emitted s' @ [ShowError (''Git '' @ action @ '' failed: '' @ err_message err)]\<rparr>"
    using assms by (simp add: handleGitAction_def)
qed

theorem refresh_after_success_only_witness:
  "handleGitAction (test_env (Some ''/w/proj'')) ''push'' None
      (init_sys [Exit_ok ''done'', Exit_ok ''main'', Exit_ok ''origin  https://h/o/r.git (fetch)'',
                 Exit_ok [], Exit_ok ''https://h/o/r.git''])
     = \<lparr>world = [], issued = ''git push'' # refresh_queries,
        emitted = [ShowInformation ''Git push success: done'',
                   PostUpdateStats \<lparr>branch = ''main'', remote = ''https://h/o/r.git'', status = ''Clean'',
                     repoName = ''r'', repoPath = ''/w/proj'', stats_user = guest\<rparr>],
        currentUser = None\<rparr>"
proof -
  let ?e = "test_env (Some ''/w/proj'') :: cmd_result list env"
  let ?w = "[Exit_ok ''main'', Exit_ok ''origin  https://h/o/r.git (fetch)'',
                 Exit_ok [], Exit_ok ''https://h/o/r.git'']"
  have g: "gitAction ?e ''push'' None (init_sys (Exit_ok ''done'' # ?w))
             = (Inr ''done'', \<lparr>world = ?w, issued = [''git push''], emitted = [], currentUser = None\<rparr>)"
    by (simp add: gitAction_def push_def exec_def trim_def js_space_def test_env_def init_sys_def)
  from refresh_after_success_only [OF g, THEN conjunct1, rule_format, OF refl, THEN conjunct1]
  show ?thesis
    by (simp add: run_defs refresh_queries_def)
qed

text \<open>
  C10.  An action outside the enumeration runs no branch of the \<open>switch\<close>: the result is
  the empty string, the handler shows a success with empty output, and the stats refresh
  follows.
\<close>

theorem unknown_action_succeeds:
  assumes "action \<notin> set git_actions"
  shows "gitAction e action pl s = (Inr [], s)
       \<and> handleGitAction e action pl s =
           refreshStats e (s\<lparr>emitted := emitted s @ [ShowInformation (''Git '' @ action @ '' success: '')]\<rparr>)"
  using assms by (simp add: git_actions_def handleGitAction_def gitAction_def)

theorem unknown_action_succeeds_witness:
  "handleGitAction (test_env None) ''bogus'' None (init_sys [])
     = \<lparr>world = [], issued = [],
        emitted = [ShowInformation ''Git bogus success: '',
                   PostUpdateStats \<lparr>branch = ''No Repo'', remote = ''No Repo'', status = ''No Repo'',
                     repoName = ''No Repo'', repoPath = ''No workspace open'', stats_user = guest\<rparr>],
        currentUser = None\<rparr>"
  using unknown_action_succeeds [of "''bogus''" "test_env None" None "init_sys []"]
  by (simp add: git_actions_def refreshStats_def post_stats_def resolve_user_def session_fallback_def
        getStatus_def getCurrentBranch_def getRemote_def getRepoName_def getRepoPath_def
        test_env_def init_sys_def)

section \<open>Claims about the repository facade\<close>

text \<open>
  C7.  The repository name follows a chain of three steps.  Without a workspace folder
  it is the sentinel \<open>No Repo\<close>, and no command is run.  With one, the URL of the remote
  \<open>origin\<close> is queried, and when the URL has a last segment after a slash, the name is
  that segment without its \<open>.git\<close> suffix (\<open>my-repo\<close> for
  \<open>https://host/org/my-repo.git\<close>).  When the query fails, or the URL has no such
  segment, the name is the folder name: the last segment of the workspace path (\<open>proj\<close>
  for a path ending in \<open>/proj\<close>).
\<close>

theorem getRepoName_fallback_chain:
  "(\<not> truthy root \<longrightarrow> getRepoName rn root s = (''No Repo'', s))
   \<and> (\<forall>cwd out w'. root = Some cwd \<and> cwd \<noteq> []
          \<and> rn ''git remote get-url origin'' cwd (world s) = (Exit_ok out, w')
        \<longrightarrow> fst (getRepoName rn root s) =
              (case url_name (trim out) of Some n \<Rightarrow> n | None \<Rightarrow> folder_name cwd))
   \<and> (\<forall>cwd stderr msg w'. root = Some cwd \<and> cwd \<noteq> []
          \<and> rn ''git remote get-url origin'' cwd (world s) = (Exit_err stderr msg, w')
        \<longrightarrow> fst (getRepoName rn root s) = folder_name cwd)
   \<and> (\<forall>base seg. seg \<noteq> [] \<and> CHR ''/'' \<notin> set seg
        \<longrightarrow> url_name (base @ ''/'' @ seg) = Some (strip_git_suffix seg))
   \<and> (\<forall>dir seg. seg \<noteq> [] \<and> CHR ''/'' \<notin> set seg \<and> CHR 0x5C \<notin> set seg
        \<longrightarrow> folder_name (dir @ ''/'' @ seg) = seg)"
proof (intro conjI)
  show "\<not> truthy root \<longrightarrow> getRepoName rn root s = (''No Repo'', s)"
    by (cases root) (auto simp: getRepoName_def)
  show "\<forall>cwd out w'. root = Some cwd \<and> cwd \<noteq> []
          \<and> rn ''git remote get-url origin'' cwd (world s) = (Exit_ok out, w')
        \<longrightarrow> fst (getRepoName rn root s) =
              (case url_name (trim out) of Some n \<Rightarrow> n | None \<Rightarrow> folder_name cwd)"
    by (auto simp: getRepoName_def exec_def repo_match_eq_url_name split: option.splits)
  show "\<forall>cwd stderr msg w'. root = Some cwd \<and> cwd \<noteq> []
          \<and> rn ''git remote get-url origin'' cwd (world s) = (Exit_err stderr msg, w')
        \<longrightarrow> fst (getRepoName rn root s) = folder_name cwd"
    by (auto simp: getRepoName_def exec_def)
  show "\<forall>base seg. seg \<noteq> [] \<and> CHR ''/'' \<notin> set seg
        \<longrightarrow> url_name (base @ ''/'' @ seg) = Some (strip_git_suffix seg)"
    using repo_match_segment by (simp add: repo_match_eq_url_name [symmetric])
  show "\<forall>dir seg. seg \<noteq> [] \<and> CHR ''/'' \<notin> set seg \<and> CHR 0x5C \<notin> set seg
        \<longrightarrow> folder_name (dir @ ''/'' @ seg) = seg"
  proof (intro allI impI)
    fix dir seg :: string
    assume a: "seg \<noteq> [] \<and> CHR ''/'' \<notin> set seg \<and> CHR 0x5C \<notin> set seg"
    then have "\<forall>x \<in> set seg. \<not> (x = CHR 0x5C \<or> x = CHR ''/'')" by auto
    from last_segment_append [of "\<lambda>c. c = CHR 0x5C \<or> c = CHR ''/''" "CHR ''/''" seg dir, OF _ this]
    have "last_segment (\<lambda>c. c = CHR 0x5C \<or> c = CHR ''/'') (dir @ ''/'' @ seg) = seg" by simp
    with a show "folder_name (dir @ ''/'' @ seg) = seg" by (simp add: folder_name_eq)
  qed
qed

theorem getRepoName_fallback_chain_witness:
  "fst (getRepoName scripted (Some ''/home/u/proj'') (init_sys [Exit_ok ''https://host/org/my-repo.git''])) = ''my-repo''
   \<and> fst (getRepoName scripted (Some ''/home/u/proj'') (init_sys [Exit_err ''no such remote'' ''failed''])) = ''proj''
   \<and> fst (getRepoName scripted None (init_sys [Exit_ok ''https://host/org/my-repo.git''])) = ''No Repo''"
proof -
  let ?ok = "init_sys [Exit_ok ''https://host/org/my-repo.git'']"
  let ?bad = "init_sys [Exit_err ''no such remote'' ''failed'']"
  note t1 = getRepoName_fallback_chain [of "Some ''/home/u/proj''" scripted ?ok]
  note t2 = getRepoName_fallback_chain [of "Some ''/home/u/proj''" scripted ?bad]
  note t3 = getRepoName_fallback_chain [of None scripted ?ok]
  have a: "Some ''/home/u/proj'' = Some ''/home/u/proj'' \<and> ''/home/u/proj'' \<noteq> []
      \<and> scripted ''git remote get-url origin'' ''/home/u/proj'' (world ?ok)
          = (Exit_ok ''https://host/org/my-repo.git'', [])"
    by (simp add: init_sys_def)
  have b: "Some ''/home/u/proj'' = Some ''/home/u/proj'' \<and> ''/home/u/proj'' \<noteq> []
      \<and> scripted ''git remote get-url origin'' ''/home/u/proj'' (world ?bad)
          = (Exit_err ''no such remote'' ''failed'', [])"
    by (simp add: init_sys_def)
  have u: "''https://host/org/my-repo.git'' = ''https://host/org'' @ ''/'' @ ''my-repo.git''" by simp
  have f: "''/home/u/proj'' = ''/home/u'' @ ''/'' @ ''proj''" by simp
  have n1: "url_name (trim ''https://host/org/my-repo.git'') = Some ''my-repo''"
    using t1 [THEN conjunct2, THEN conjunct2, THEN conjunct2, THEN conjunct1, rule_format,
              of "''my-repo.git''" "''https://host/org''"]
    by (simp add: trim_def js_space_def strip_git_suffix_def)
  have n2: "folder_name ''/home/u/proj'' = ''proj''"
    using t1 [THEN conjunct2, THEN conjunct2, THEN conjunct2, THEN conjunct2, rule_format,
              of "''proj''" "''/home/u''"]
    by simp
  from t1 [THEN conjunct2, THEN conjunct1, rule_format, OF a]
       t2 [THEN conjunct2, THEN conjunct2, THEN conjunct1, rule_format, OF b]
       t3 [THEN conjunct1]
  show ?thesis by (simp add: n1 n2)
qed

text \<open>
  C9, as the claim states it, fails for the mutation operations: without a workspace
  folder \<open>push\<close> does not return a sentinel, it raises.
\<close>

theorem push_without_workspace_counterexample:
  "push scripted None (init_sys [Exit_ok ''pushed'']) =
     (Inl (Error ''No workspace folder open''), init_sys [Exit_ok ''pushed''])"
  by (simp add: push_def exec_def)

text \<open>
  C9, amended.  Without a workspace folder no operation of the facade runs a command or
  changes the state.  The queries return sentinel results (\<open>No Repo\<close>, \<open>No workspace
  open\<close>, the empty list of branches, \<open>Failed to update remote URL\<close>); the mutation
  operations raise the error \<open>No workspace folder open\<close>, which \<open>setRemote\<close> wraps.
\<close>

theorem no_workspace_results:
  assumes "\<not> truthy root"
  shows "getRepoName rn root s = (''No Repo'', s)
       \<and> getStatus rn root s = (''No Repo'', s)
       \<and> getCurrentBranch rn root s = (''No Repo'', s)
       \<and> getRemote rn root s = (''No Repo'', s)
       \<and> getRepoPath root = ''No workspace open''
       \<and> getBranches rn root s = ([], s)
       \<and> updateRemoteUrlWithToken rn root token s = (''Failed to update remote URL'', s)
       \<and> push rn root s = (Inl (Error ''No workspace folder open''), s)
       \<and> pull rn root s = (Inl (Error ''No workspace folder open''), s)
       \<and> fetch rn root s = (Inl (Error ''No workspace folder open''), s)
       \<and> stash rn root s = (Inl (Error ''No workspace folder open''), s)
       \<and> addAll rn root s = (Inl (Error ''No workspace folder open''), s)
       \<and> commit rn root msg s = (Inl (Error ''No workspace folder open''), s)
       \<and> createBranch rn root b s = (Inl (Error ''No workspace folder open''), s)
       \<and> deleteBranch rn root b s = (Inl (Error ''No workspace folder open''), s)
       \<and> switchBranch rn root b s = (Inl (Error ''No workspace folder open''), s)
       \<and> mergeBranch rn root b s = (Inl (Error ''No workspace folder open''), s)
       \<and> setRemote rn root u s = (Inl (Error ''Failed to set remote: No workspace folder open''), s)
       \<and> (\<forall>e action pl.
             workspaceRoot e = root \<and> action \<in> set git_actions \<and> action \<noteq> ''status''
             \<and> (\<forall>f. required_field action = Some f \<longrightarrow> field f pl \<noteq> None)
           \<longrightarrow> handleGitAction e action pl s =
                 s\<lparr>emitted := emitted s @
                    [ShowError (''Git '' @ action @ '' failed: ''
                       @ (if action = ''set-remote'' then ''Failed to set remote: '' else [])
                       @ ''No workspace folder open'')]\<rparr>)"
proof -
  note x = exec_no_root [OF assms]
  have q1: "getRepoName rn root s = (''No Repo'', s)"
    using assms by (cases root) (auto simp: getRepoName_def)
  have q2: "getStatus rn root s = (''No Repo'', s)" "getCurrentBranch rn root s = (''No Repo'', s)"
    "getRemote rn root s = (''No Repo'', s)"
    using assms by (simp_all add: getStatus_def getCurrentBranch_def getRemote_def)
  have q3: "getRepoPath root = ''No workspace open''"
    using assms by (cases root) (auto simp: getRepoPath_def)
  have q4: "getBranches rn root s = ([], s)"
    "updateRemoteUrlWithToken rn root token s = (''Failed to update remote URL'', s)"
    by (simp_all add: getBranches_def updateRemoteUrlWithToken_def x)
  have m: "push rn root s = (Inl (Error ''No workspace folder open''), s)"
    "pull rn root s = (Inl (Error ''No workspace folder open''), s)"
    "fetch rn root s = (Inl (Error ''No workspace folder open''), s)"
    "stash rn root s = (Inl (Error ''No workspace folder open''), s)"
    "addAll rn root s = (Inl (Error ''No workspace folder open''), s)"
    "commit rn root msg s = (Inl (Error ''No workspace folder open''), s)"
    "createBranch rn root b s = (Inl (Error ''No workspace folder open''), s)"
    "deleteBranch rn root b s = (Inl (Error ''No workspace folder open''), s)"
    "switchBranch rn root b s = (Inl (Error ''No workspace folder open''), s)"
    "mergeBranch rn root b s = (Inl (Error ''No workspace folder open''), s)"
    by (simp_all add: push_def pull_def fetch_def stash_def addAll_def commit_def createBranch_def
          deleteBranch_def switchBranch_def mergeBranch_def x)
  have sr: "setRemote rn root u s = (Inl (Error ''Failed to set remote: No workspace folder open''), s)"
    by (simp add: setRemote_def setRemote_add_def x)
  have d: "\<forall>e action pl.
             workspaceRoot e = root \<and> action \<in> set git_actions \<and> action \<noteq> ''status''
             \<and> (\<forall>f. required_field action = Some f \<longrightarrow> field f pl \<noteq> None)
           \<longrightarrow> handleGitAction e action pl s =
                 s\<lparr>emitted := emitted s @
                    [ShowError (''Git '' @ action @ '' failed: ''
                       @ (if action = ''set-remote'' then ''Failed to set remote: '' else [])
                       @ ''No workspace folder open'')]\<rparr>"
  proof (intro allI impI)
    fix e :: "'a env" and action pl
    assume h: "workspaceRoot e = root \<and> action \<in> set git_actions \<and> action \<noteq> ''status''
             \<and> (\<forall>f. required_field action = Some f \<longrightarrow> field f pl \<noteq> None)"
    then have nr: "\<not> truthy (workspaceRoot e)" using assms by simp
    from h have a: "action \<in> set git_actions" and b: "action \<noteq> ''status''"
      and c: "\<forall>f. required_field action = Some f \<longrightarrow> field f pl \<noteq> None" by simp_all
    show "handleGitAction e action pl s =
                 s\<lparr>emitted := emitted s @
                    [ShowError (''Git '' @ action @ '' failed: ''
                       @ (if action = ''set-remote'' then ''Failed to set remote: '' else [])
                       @ ''No workspace folder open'')]\<rparr>"
      by (rule dispatch_no_workspace [OF nr a b c])
  qed
  show ?thesis by (intro conjI q1 q2 q3 q4 m sr d)
qed

theorem no_workspace_results_witness:
  "getStatus scripted None (init_sys [Exit_ok ''x'']) = (''No Repo'', init_sys [Exit_ok ''x''])
   \<and> stash scripted (Some []) (init_sys [Exit_ok ''x''])
       = (Inl (Error ''No workspace folder open''), init_sys [Exit_ok ''x''])
   \<and> setRemote scripted None ''https://h/o/r.git'' (init_sys [Exit_ok ''x''])
       = (Inl (Error ''Failed to set remote: No workspace folder open''), init_sys [Exit_ok ''x''])
   \<and> handleGitAction (test_env None) ''push'' None (init_sys [Exit_ok ''x''])
       = \<lparr>world = [Exit_ok ''x''], issued = [],
          emitted = [ShowError ''Git push failed: No workspace folder open''], currentUser = None\<rparr>"
proof -
  have n1: "\<not> truthy None" and n2: "\<not> truthy (Some [])" by simp_all
  note t1 = no_workspace_results [OF n1, of scripted "init_sys [Exit_ok ''x'']" "''X''" "''m''" "''b''"
      "''https://h/o/r.git''"]
  note t2 = no_workspace_results [OF n2, of scripted "init_sys [Exit_ok ''x'']" "''X''" "''m''" "''b''"
      "''https://h/o/r.git''"]
  from t1 have d: "\<forall>(e :: cmd_result list env) action pl.
             workspaceRoot e = None \<and> action \<in> set git_actions \<and> action \<noteq> ''status''
             \<and> (\<forall>f. required_field action = Some f \<longrightarrow> field f pl \<noteq> None)
           \<longrightarrow> handleGitAction e action pl (init_sys [Exit_ok ''x'']) =
                 (init_sys [Exit_ok ''x''])\<lparr>emitted := emitted (init_sys [Exit_ok ''x'']) @
                    [ShowError (''Git '' @ action @ '' failed: ''
                       @ (if action = ''set-remote'' then ''Failed to set remote: '' else [])
                       @ ''No workspace folder open'')]\<rparr>"
    apply (elim conjE)
    apply assumption
    done
  have p: "workspaceRoot (test_env None :: cmd_result list env) = None
      \<and> ''push'' \<in> set git_actions \<and> ''push'' \<noteq> ''status''
      \<and> (\<forall>f. required_field ''push'' = Some f \<longrightarrow> field f None \<noteq> None)"
    by (simp add: test_env_def git_actions_def required_field_def)
  from d [rule_format, OF p]
  have 4: "handleGitAction (test_env None) ''push'' None (init_sys [Exit_ok ''x''])
       = \<lparr>world = [Exit_ok ''x''], issued = [],
          emitted = [ShowError ''Git push failed: No workspace folder open''], currentUser = None\<rparr>"
    by (simp add: init_sys_def)
  from t1 have 1: "getStatus scripted None (init_sys [Exit_ok ''x'']) = (''No Repo'', init_sys [Exit_ok ''x''])"
    apply (elim conjE)
    apply assumption
    done
  from t2 have 2: "stash scripted (Some []) (init_sys [Exit_ok ''x''])
       = (Inl (Error ''No workspace folder open''), init_sys [Exit_ok ''x''])"
    apply (elim conjE)
    apply assumption
    done
  from t1 have 3: "setRemote scripted None ''https://h/o/r.git'' (init_sys [Exit_ok ''x''])
       = (Inl (Error ''Failed to set remote: No workspace folder open''), init_sys [Exit_ok ''x''])"
    apply (elim conjE)
    apply assumption
    done
  show ?thesis by (intro conjI 1 2 3 4)
qed

text \<open>
  Where the operation does what is expected of it.  Given an HTTPS URL of the remote
  \<open>origin\<close> (on one line) and a token without a dollar sign, the operation strips what
  \<^verbatim>\<open>https://.*?@\<close> matches, embeds the token and sets the remote to the result:
  \<open>https://olduser@host/org/repo.git\<close> with token \<open>X\<close> becomes
  \<open>https://X@host/org/repo.git\<close>.  Given a URL that does not start with \<open>https://\<close>,
  only the query is run, the remote is not set, and the result is the message that the
  update was skipped.
\<close>

lemma updateRemoteUrlWithToken_plain_token:
  assumes "root = Some cwd" and "cwd \<noteq> []"
    and "rn ''git remote get-url origin'' cwd (world s) = (Exit_ok out, w1)"
  shows "(\<forall>rest r2 w2.
            trim out = ''https://'' @ rest \<and> (\<forall>c \<in> set rest. \<not> line_terminator c)
            \<and> CHR ''$'' \<notin> set token
            \<and> rn (''git remote set-url origin https://'' @ token @ ''@'' @ without_credential rest) cwd w1
                = (r2, w2)
          \<longrightarrow> updateRemoteUrlWithToken rn root token s =
                (if failed r2 then ''Failed to update remote URL'' else ''Remote URL updated with token'',
                 s\<lparr>world := w2,
                   issued := issued s @ [''git remote get-url origin'',
                     ''git remote set-url origin https://'' @ token @ ''@'' @ without_credential rest]\<rparr>))
       \<and> (\<not> starts_with (trim out) ''https://''
          \<longrightarrow> updateRemoteUrlWithToken rn root token s =
                (''Remote URL is not HTTPS, skipping token update'',
                 s\<lparr>world := w1, issued := issued s @ [''git remote get-url origin'']\<rparr>))"
proof (rule conjI)
  have e1: "exec rn root ''git remote get-url origin'' s =
              (Inr (trim out), s\<lparr>world := w1, issued := issued s @ [''git remote get-url origin'']\<rparr>)"
    using exec_root [of root cwd rn "''git remote get-url origin''" s "Exit_ok out" w1] assms by simp
  show "\<not> starts_with (trim out) ''https://''
          \<longrightarrow> updateRemoteUrlWithToken rn root token s =
                (''Remote URL is not HTTPS, skipping token update'',
                 s\<lparr>world := w1, issued := issued s @ [''git remote get-url origin'']\<rparr>)"
    by (simp add: updateRemoteUrlWithToken_def e1)
  show "\<forall>rest r2 w2.
            trim out = ''https://'' @ rest \<and> (\<forall>c \<in> set rest. \<not> line_terminator c)
            \<and> CHR ''$'' \<notin> set token
            \<and> rn (''git remote set-url origin https://'' @ token @ ''@'' @ without_credential rest) cwd w1
                = (r2, w2)
          \<longrightarrow> updateRemoteUrlWithToken rn root token s =
                (if failed r2 then ''Failed to update remote URL'' else ''Remote URL updated with token'',
                 s\<lparr>world := w2,
                   issued := issued s @ [''git remote get-url origin'',
                     ''git remote set-url origin https://'' @ token @ ''@'' @ without_credential rest]\<rparr>)"
  proof (intro allI impI)
    fix rest r2 w2
    assume h: "trim out = ''https://'' @ rest \<and> (\<forall>c \<in> set rest. \<not> line_terminator c)
            \<and> CHR ''$'' \<notin> set token
            \<and> rn (''git remote set-url origin https://'' @ token @ ''@'' @ without_credential rest) cwd w1
                = (r2, w2)"
    let ?s1 = "s\<lparr>world := w1, issued := issued s @ [''git remote get-url origin'']\<rparr>"
    let ?new = "''https://'' @ token @ ''@'' @ without_credential rest"
    from h have t: "trim out = ''https://'' @ rest" and nl: "\<forall>c \<in> set rest. \<not> line_terminator c"
      and nd: "CHR ''$'' \<notin> set token" by blast+
    have sw: "starts_with (trim out) ''https://''" unfolding t by (simp add: starts_with_def)
    have clean: "strip_credential (trim out) = ''https://'' @ without_credential rest"
      unfolding t by (rule strip_credential_https [OF nl])
    have new: "replace_first ''https://'' (''https://'' @ token @ ''@'') [] (strip_credential (trim out)) = ?new"
      unfolding clean by (rule replace_first_https [OF nd])
    have r2: "rn (''git remote set-url origin '' @ ?new) cwd (world ?s1) = (r2, w2)"
      using h by simp
    have e2: "exec rn root (''git remote set-url origin '' @ ?new) ?s1 =
               ((case r2 of Exit_err stderr msg \<Rightarrow> Inl (Error (if stderr = [] then msg else stderr))
                          | Exit_ok stdout \<Rightarrow> Inr (trim stdout)),
                ?s1\<lparr>world := w2, issued := issued ?s1 @ [''git remote set-url origin '' @ ?new]\<rparr>)"
      using exec_root [of root cwd rn "''git remote set-url origin '' @ ?new" ?s1 r2 w2] assms(1,2) r2
      by blast
    show "updateRemoteUrlWithToken rn root token s =
                (if failed r2 then ''Failed to update remote URL'' else ''Remote URL updated with token'',
                 s\<lparr>world := w2,
                   issued := issued s @ [''git remote get-url origin'',
                     ''git remote set-url origin https://'' @ token @ ''@'' @ without_credential rest]\<rparr>)"
    proof -
      have "updateRemoteUrlWithToken rn root token s =
              (case exec rn root (''git remote set-url origin '' @ ?new) ?s1 of
                 (Inl e, s'') \<Rightarrow> (''Failed to update remote URL'', s'')
               | (Inr out, s'') \<Rightarrow> (''Remote URL updated with token'', s''))"
        unfolding updateRemoteUrlWithToken_def e1 using sw by (simp only: Let_def new prod.case sum.case if_True)
      then show ?thesis unfolding e2 by (cases r2) simp_all
    qed
  qed
qed

lemma updateRemoteUrlWithToken_plain_token_example:
  "updateRemoteUrlWithToken scripted (Some ''/w/proj'') ''X''
      (init_sys [Exit_ok ''https://olduser@host/org/repo.git'', Exit_ok []])
     = (''Remote URL updated with token'',
        \<lparr>world = [], issued = [''git remote get-url origin'',
            ''git remote set-url origin https://X@host/org/repo.git''],
          emitted = [], currentUser = None\<rparr>)
   \<and> updateRemoteUrlWithToken scripted (Some ''/w/proj'') ''X''
      (init_sys [Exit_ok ''ssh://git@host/org/repo.git'', Exit_ok []])
     = (''Remote URL is not HTTPS, skipping token update'',
        \<lparr>world = [Exit_ok []], issued = [''git remote get-url origin''],
          emitted = [], currentUser = None\<rparr>)"
proof -
  let ?s = "init_sys [Exit_ok ''https://olduser@host/org/repo.git'', Exit_ok []]"
  let ?t = "init_sys [Exit_ok ''ssh://git@host/org/repo.git'', Exit_ok []]"
  have a: "scripted ''git remote get-url origin'' ''/w/proj'' (world ?s)
             = (Exit_ok ''https://olduser@host/org/repo.git'', [Exit_ok []])"
    by (simp add: init_sys_def)
  have b: "scripted ''git remote get-url origin'' ''/w/proj'' (world ?t)
             = (Exit_ok ''ssh://git@host/org/repo.git'', [Exit_ok []])"
    by (simp add: init_sys_def)
  have nz: "''/w/proj'' \<noteq> []" by simp
  have h: "trim ''https://olduser@host/org/repo.git'' = ''https://'' @ ''olduser@host/org/repo.git''
      \<and> (\<forall>c \<in> set ''olduser@host/org/repo.git''. \<not> line_terminator c)
      \<and> CHR ''$'' \<notin> set ''X''
      \<and> scripted (''git remote set-url origin https://'' @ ''X'' @ ''@''
            @ without_credential ''olduser@host/org/repo.git'') ''/w/proj'' [Exit_ok []]
          = (Exit_ok [], [])"
    by (simp add: trim_def js_space_def line_terminator_def)
  have n: "\<not> starts_with (trim ''ssh://git@host/org/repo.git'') ''https://''"
    by (simp add: trim_def js_space_def starts_with_def)
  note t1 = updateRemoteUrlWithToken_plain_token [where rn = scripted and root = "Some ''/w/proj''"
      and cwd = "''/w/proj''" and s = ?s and out = "''https://olduser@host/org/repo.git''"
      and ?w1.0 = "[Exit_ok []]" and token = "''X''", OF refl nz a]
  note t2 = updateRemoteUrlWithToken_plain_token [where rn = scripted and root = "Some ''/w/proj''"
      and cwd = "''/w/proj''" and s = ?t and out = "''ssh://git@host/org/repo.git''"
      and ?w1.0 = "[Exit_ok []]" and token = "''X''", OF refl nz b]
  from t1 [THEN conjunct1, rule_format, OF h] t2 [THEN conjunct2, rule_format, OF n]
  show ?thesis by (simp add: without_credential_def init_sys_def)
qed

text \<open>
  C8.  The operation is to strip an embedded credential from an HTTPS URL of \<open>origin\<close>
  and embed the token, whatever the token is.  The source embeds it with
  \<^verbatim>\<open>cleanUrl.replace("https://", `https://${token}@`)\<close>, where the second argument is
  a replacement template: a token that contains \<open>$&\<close> is not embedded as it is.  For the
  URL \<open>https://olduser@host/org/repo.git\<close> and the token \<open>a$&b\<close> the remote is set to
  \<open>https://ahttps://b@host/org/repo.git\<close>, not to \<open>https://a$&b@host/org/repo.git\<close>,
  and the operation reports that the URL was updated with the token.
\<close>

theorem updateRemoteUrlWithToken_dollar_token:
  "updateRemoteUrlWithToken scripted (Some ''/w/proj'') ''a$&b''
      (init_sys [Exit_ok ''https://olduser@host/org/repo.git'', Exit_ok []])
     = (''Remote URL updated with token'',
        \<lparr>world = [], issued = [''git remote get-url origin'',
            ''git remote set-url origin https://ahttps://b@host/org/repo.git''],
          emitted = [], currentUser = None\<rparr>)
   \<and> ''git remote set-url origin https://ahttps://b@host/org/repo.git''
       \<noteq> ''git remote set-url origin https://'' @ ''a$&b'' @ ''@'' @ ''host/org/repo.git''"
  by (simp add: updateRemoteUrlWithToken_def exec_def trim_def js_space_def line_terminator_def
        starts_with_def cred_match_at_def init_sys_def)

section \<open>Claims about the device-flow authenticator\<close>

text \<open>
  C4, as the claim states it, fails: the interval of a \<open>slow_down\<close> reply is used for one
  wait only.  Started with interval 5, after \<open>slow_down\<close> with interval 10 the loop waits
  11 seconds once, and 6 seconds after each later \<open>authorization_pending\<close>.
\<close>

theorem slow_down_one_time_counterexample:
  "timers (snd (poll 5 [slow_down_reply 10, pending_reply, pending_reply]))
     = [Some 11000, Some 6000, Some 6000]
   \<and> (6000 :: int) < (10 + 1) * 1000"
  by (simp add: slow_down_reply_def pending_reply_def classify_def)

text \<open>
  C4, amended.  Every wait of the loop is computed from the reply that caused it and the
  interval that the flow was started with: after \<open>slow_down\<close> with interval \<open>n\<close> the next
  poll waits \<open>n + 1\<close> seconds, and the poll after a following \<open>authorization_pending\<close>
  waits the original interval plus one second again.
\<close>

theorem slow_down_delays_one_poll:
  "timers (snd (poll interval replies))
     = map (wait_after interval) (takeWhile (reschedules interval) replies)
   \<and> timers (snd (poll interval (slow_down_reply n # pending_reply # rs)))
       = Some ((n + 1) * 1000) # Some ((interval + 1) * 1000) # timers (snd (poll interval rs))"
proof (rule conjI)
  show "timers (snd (poll interval replies))
     = map (wait_after interval) (takeWhile (reschedules interval) replies)"
    by (rule timers_poll)
  have s: "classify interval (slow_down_reply n) = Reschedule (Some ((n + 1) * 1000))"
    by (simp add: slow_down_reply_def classify_def)
  have p: "classify interval pending_reply = Reschedule (Some ((interval + 1) * 1000))"
    by (simp add: pending_reply_def classify_def)
  show "timers (snd (poll interval (slow_down_reply n # pending_reply # rs)))
       = Some ((n + 1) * 1000) # Some ((interval + 1) * 1000) # timers (snd (poll interval rs))"
    by (simp only: poll_Reschedule [OF s] poll_Reschedule [OF p] snd_conv timers.simps)
qed

theorem slow_down_delays_one_poll_witness:
  "timers (snd (poll 5 [slow_down_reply 10, pending_reply, token_reply ''T'']))
     = [Some 11000, Some 6000]
   \<and> map (wait_after 5) (takeWhile (reschedules 5) [slow_down_reply 10, pending_reply, token_reply ''T''])
     = [Some 11000, Some 6000]"
  using slow_down_delays_one_poll [of 5 "[slow_down_reply 10, pending_reply, token_reply ''T'']" 10 "[]"]
  by (simp add: reschedules_def wait_after_def classify_def slow_down_reply_def pending_reply_def
        token_reply_def)

text \<open>
  C5, as the claim states it, fails: a second login does not cancel the first attempt.
  After the second login the timer of the first attempt fires and a token request with
  the first device code is issued; its reply, carrying a token, runs the success
  continuation.
\<close>

theorem superseded_flow_completes_counterexample:
  "token_requests (login_run True
       [Login (Inr dc_A), Reply 0 pending_reply, Login (Inr dc_B), Fire 0, Reply 0 (token_reply ''T'')]
       no_logins) = [''A'', ''B'', ''A'']
   \<and> effects (login_run True
       [Login (Inr dc_A), Reply 0 pending_reply, Login (Inr dc_B), Fire 0, Reply 0 (token_reply ''T'')]
       no_logins)
     = [Notify (PostShowDeviceCode ''AAAA-1111'' ''https://github.com/login/device''),
        Notify (PostShowDeviceCode ''BBBB-2222'' ''https://github.com/login/device''),
        StoreSecret ''gitHelper.githubPat'' ''T'',
        Notify (ShowInformation ''Successfully logged in with GitHub!'')]"
  by (simp add: no_logins_def dc_A_def dc_B_def pending_reply_def token_reply_def classify_def
        set_phase_def on_success_def)

text \<open>
  C5, amended.  A pending device-flow attempt is never cancelled: a new login leaves
  every earlier attempt as it was, so the armed timer of an earlier attempt still issues
  a token request when it fires, and the reply to its outstanding request still runs
  the success continuation (on a token) or the failure continuation (on a terminal
  error).
\<close>

theorem new_login_cancels_nothing:
  assumes "i < length (flows s)"
  shows "flows (login_step view (Login r) s) ! i = flows s ! i
   \<and> (armed (f_phase (flows s ! i)) \<longrightarrow>
        token_requests (login_step view (Fire i) (login_step view (Login r) s))
          = token_requests (login_step view (Login r) s) @ [f_device_code (flows s ! i)])
   \<and> (\<forall>t. f_phase (flows s ! i) = AwaitingReply
            \<and> classify (f_interval (flows s ! i)) reply = Resolve t \<longrightarrow>
        effects (login_step view (Reply i reply) (login_step view (Login r) s))
          = effects (login_step view (Login r) s) @ on_success t)
   \<and> (\<forall>err. f_phase (flows s ! i) = AwaitingReply
            \<and> classify (f_interval (flows s ! i)) reply = Reject err \<longrightarrow>
        effects (login_step view (Reply i reply) (login_step view (Login r) s))
          = effects (login_step view (Login r) s) @ on_failure view err)"
proof -
  let ?s' = "login_step view (Login r) s"
  have k: "flows ?s' ! i = flows s ! i" by (rule login_keeps_flows [OF assms])
  have l: "i < length (flows ?s')" using assms login_length [of s view r] by linarith
  have a: "armed (f_phase (flows s ! i)) \<longrightarrow>
        token_requests (login_step view (Fire i) ?s') = token_requests ?s' @ [f_device_code (flows s ! i)]"
    using k l by (simp add: set_phase_flows)
  have b: "\<forall>t. f_phase (flows s ! i) = AwaitingReply
            \<and> classify (f_interval (flows s ! i)) reply = Resolve t \<longrightarrow>
        effects (login_step view (Reply i reply) ?s') = effects ?s' @ on_success t"
    using k l by (simp add: set_phase_flows)
  have c: "\<forall>err. f_phase (flows s ! i) = AwaitingReply
            \<and> classify (f_interval (flows s ! i)) reply = Reject err \<longrightarrow>
        effects (login_step view (Reply i reply) ?s') = effects ?s' @ on_failure view err"
    using k l by (simp add: set_phase_flows)
  from k a b c show ?thesis by blast
qed

theorem new_login_cancels_nothing_witness:
  "effects (login_step True (Reply 0 (token_reply ''T''))
             (login_step True (Login (Inr dc_B)) (login_run True [Login (Inr dc_A)] no_logins)))
     = effects (login_step True (Login (Inr dc_B)) (login_run True [Login (Inr dc_A)] no_logins))
         @ [StoreSecret ''gitHelper.githubPat'' ''T'',
            Notify (ShowInformation ''Successfully logged in with GitHub!'')]
   \<and> token_requests (login_step True (Fire 0)
             (login_step True (Login (Inr dc_B))
                (login_run True [Login (Inr dc_A), Reply 0 pending_reply] no_logins)))
     = [''A'', ''B'', ''A'']"
proof -
  let ?s1 = "login_run True [Login (Inr dc_A)] no_logins"
  let ?s2 = "login_run True [Login (Inr dc_A), Reply 0 pending_reply] no_logins"
  have f1: "flows ?s1 = [\<lparr>f_device_code = ''A'', f_interval = 5, f_phase = AwaitingReply\<rparr>]"
    by (simp add: no_logins_def dc_A_def)
  have f2: "flows ?s2 = [\<lparr>f_device_code = ''A'', f_interval = 5, f_phase = TimerArmed (Some 6000)\<rparr>]"
    by (simp add: no_logins_def dc_A_def pending_reply_def classify_def set_phase_def)
  have l1: "0 < length (flows ?s1)" and l2: "0 < length (flows ?s2)" by (simp_all only: f1 f2 list.size)
  have c: "classify 5 (token_reply ''T'') = Resolve ''T''" by (simp add: token_reply_def classify_def)
  from new_login_cancels_nothing [OF l1, of True "Inr dc_B" "token_reply ''T''"]
  have 1: "effects (login_step True (Reply 0 (token_reply ''T'')) (login_step True (Login (Inr dc_B)) ?s1))
     = effects (login_step True (Login (Inr dc_B)) ?s1) @ on_success ''T''"
    using c by (simp add: f1 del: login_run.simps login_step.simps)
  from new_login_cancels_nothing [OF l2, of True "Inr dc_B"]
  have 2: "token_requests (login_step True (Fire 0) (login_step True (Login (Inr dc_B)) ?s2))
     = token_requests (login_step True (Login (Inr dc_B)) ?s2) @ [''A'']"
    by (simp add: f2 del: login_run.simps login_step.simps)
  have 3: "token_requests (login_step True (Login (Inr dc_B)) ?s2) = [''A'', ''B'']"
    by (simp add: no_logins_def dc_A_def dc_B_def pending_reply_def classify_def set_phase_def)
  from 1 2 3 show ?thesis by (simp add: on_success_def del: login_run.simps login_step.simps)
qed

text \<open>
  C6, as the claim states it, fails for the error \<open>slow_down\<close>, which is none of the
  three errors that the claim names but does not end the flow: the loop arms a timer and
  polls again.
\<close>

theorem slow_down_not_terminal_counterexample:
  "error_code \<lparr>access_token = None, error_code = Some ''slow_down'', error_description = None,
               new_interval = Some 10\<rparr>
     \<notin> {Some ''authorization_pending'', Some ''expired_token'', Some ''access_denied''}
   \<and> poll 5 [slow_down_reply 10] = (Pending, [TokenRequest, Timer (Some 11000), TokenRequest])"
  by (simp add: slow_down_reply_def classify_def)

text \<open>
  C6, amended.  A reply with a non-empty \<open>access_token\<close> resolves the flow with the
  token and ends the loop.  Otherwise \<open>authorization_pending\<close> and \<open>slow_down\<close> arm a
  timer and the loop goes on; \<open>expired_token\<close> and \<open>access_denied\<close> end the loop with
  the failures \<open>Token expired\<close> and \<open>Access denied\<close>; every other reply ends the loop
  with a failure carrying the error description of the reply, or \<open>Unknown error\<close> when
  it has none.  After a terminal reply no further token request is issued.
\<close>

theorem token_response_classification:
  "(\<forall>t. access_token r = Some t \<and> t \<noteq> [] \<longrightarrow>
        poll interval (Json_object r # rs) = (Resolved t, [TokenRequest]))
   \<and> (\<not> truthy (access_token r) \<longrightarrow>
        (error_code r = Some ''authorization_pending'' \<longrightarrow>
           poll interval (Json_object r # rs) =
             (fst (poll interval rs),
              TokenRequest # Timer (Some ((interval + 1) * 1000)) # snd (poll interval rs)))
      \<and> (error_code r = Some ''slow_down'' \<longrightarrow>
           poll interval (Json_object r # rs) =
             (fst (poll interval rs),
              TokenRequest # Timer (map_option (\<lambda>n. (n + 1) * 1000) (new_interval r))
                # snd (poll interval rs)))
      \<and> (error_code r = Some ''expired_token'' \<longrightarrow>
           poll interval (Json_object r # rs) = (Rejected (Error ''Token expired''), [TokenRequest]))
      \<and> (error_code r = Some ''access_denied'' \<longrightarrow>
           poll interval (Json_object r # rs) = (Rejected (Error ''Access denied''), [TokenRequest]))
      \<and> (error_code r \<notin> {Some ''authorization_pending'', Some ''slow_down'', Some ''expired_token'',
                           Some ''access_denied''} \<longrightarrow>
           poll interval (Json_object r # rs) =
             (Rejected (Error (or_else (error_description r) ''Unknown error'')), [TokenRequest])))"
proof (intro conjI allI impI)
  fix t assume "access_token r = Some t \<and> t \<noteq> []"
  then show "poll interval (Json_object r # rs) = (Resolved t, [TokenRequest])"
    by (intro poll_Resolve classify_token) simp_all
next
  assume n: "\<not> truthy (access_token r)" and e: "error_code r = Some ''authorization_pending''"
  show "poll interval (Json_object r # rs) =
             (fst (poll interval rs),
              TokenRequest # Timer (Some ((interval + 1) * 1000)) # snd (poll interval rs))"
    by (rule poll_Reschedule [OF classify_pending [OF n e]])
next
  assume n: "\<not> truthy (access_token r)" and e: "error_code r = Some ''slow_down''"
  show "poll interval (Json_object r # rs) =
             (fst (poll interval rs),
              TokenRequest # Timer (map_option (\<lambda>n. (n + 1) * 1000) (new_interval r))
                # snd (poll interval rs))"
    by (rule poll_Reschedule [OF classify_slow_down [OF n e]])
next
  assume n: "\<not> truthy (access_token r)" and e: "error_code r = Some ''expired_token''"
  show "poll interval (Json_object r # rs) = (Rejected (Error ''Token expired''), [TokenRequest])"
    by (rule poll_Reject [OF classify_expired [OF n e]])
next
  assume n: "\<not> truthy (access_token r)" and e: "error_code r = Some ''access_denied''"
  show "poll interval (Json_object r # rs) = (Rejected (Error ''Access denied''), [TokenRequest])"
    by (rule poll_Reject [OF classify_denied [OF n e]])
next
  assume n: "\<not> truthy (access_token r)"
    and e: "error_code r \<notin> {Some ''authorization_pending'', Some ''slow_down'', Some ''expired_token'',
                           Some ''access_denied''}"
  show "poll interval (Json_object r # rs) =
             (Rejected (Error (or_else (error_description r) ''Unknown error'')), [TokenRequest])"
    by (rule poll_Reject [OF classify_other [OF n e]])
qed

theorem token_response_classification_witness:
  "poll 5 [token_reply ''T'', pending_reply] = (Resolved ''T'', [TokenRequest])
   \<and> poll 5 [pending_reply] = (Pending, [TokenRequest, Timer (Some 6000), TokenRequest])
   \<and> poll 5 [slow_down_reply 10] = (Pending, [TokenRequest, Timer (Some 11000), TokenRequest])
   \<and> poll 5 [Json_object \<lparr>access_token = None, error_code = Some ''expired_token'',
                 error_description = Some ''The device code has expired'', new_interval = None\<rparr>, pending_reply]
       = (Rejected (Error ''Token expired''), [TokenRequest])
   \<and> poll 5 [Json_object \<lparr>access_token = None, error_code = Some ''access_denied'',
                 error_description = None, new_interval = None\<rparr>]
       = (Rejected (Error ''Access denied''), [TokenRequest])
   \<and> poll 5 [Json_object \<lparr>access_token = None, error_code = Some ''incorrect_client_credentials'',
                 error_description = Some ''The client_id is not valid'', new_interval = None\<rparr>]
       = (Rejected (Error ''The client_id is not valid''), [TokenRequest])"
proof -
  let ?tok = "\<lparr>access_token = Some ''T'', error_code = None, error_description = None, new_interval = None\<rparr>"
  let ?pen = "\<lparr>access_token = None, error_code = Some ''authorization_pending'',
                 error_description = None, new_interval = None\<rparr>"
  let ?slow = "\<lparr>access_token = None, error_code = Some ''slow_down'',
                 error_description = None, new_interval = Some (10::int)\<rparr>"
  let ?exp = "\<lparr>access_token = None, error_code = Some ''expired_token'',
                 error_description = Some ''The device code has expired'', new_interval = None\<rparr>"
  let ?den = "\<lparr>access_token = None, error_code = Some ''access_denied'',
                 error_description = None, new_interval = None\<rparr>"
  let ?oth = "\<lparr>access_token = None, error_code = Some ''incorrect_client_credentials'',
                 error_description = Some ''The client_id is not valid'', new_interval = None\<rparr>"
  from token_response_classification [of ?tok 5 "[pending_reply]"]
  have 1: "poll 5 [Json_object ?tok, pending_reply] = (Resolved ''T'', [TokenRequest])" by simp
  from token_response_classification [of ?pen 5 "[]"]
  have 2: "poll 5 [Json_object ?pen] = (Pending, [TokenRequest, Timer (Some 6000), TokenRequest])" by simp
  from token_response_classification [of ?slow 5 "[]"]
  have 3: "poll 5 [Json_object ?slow] = (Pending, [TokenRequest, Timer (Some 11000), TokenRequest])" by simp
  from token_response_classification [of ?exp 5 "[pending_reply]"]
  have 4: "poll 5 [Json_object ?exp, pending_reply] = (Rejected (Error ''Token expired''), [TokenRequest])" by simp
  from token_response_classification [of ?den 5 "[]"]
  have 5: "poll 5 [Json_object ?den] = (Rejected (Error ''Access denied''), [TokenRequest])" by simp
  from token_response_classification [of ?oth 5 "[]"]
  have 6: "poll 5 [Json_object ?oth] = (Rejected (Error ''The client_id is not valid''), [TokenRequest])" by simp
  from 1 2 3 4 5 6 show ?thesis
    by (simp only: token_reply_def pending_reply_def slow_down_reply_def)
qed

end
